theory Spec2Isabelle
  imports Complex_Main
begin

section \<open>JavaScript numbers\<close>

text \<open>
  A JavaScript number is an IEEE-754 double: a finite value, NaN or one of the two
  infinities. A finite double is a real of the form \<open>m * 2^e\<close> with \<open>|m| < 2^53\<close> and
  \<open>e \<ge> -1074\<close>, below \<open>2^1024\<close> in magnitude; \<open>Fin\<close> carries that real. The sign of
  zero is not kept: the controller never divides by zero, and \<open>JSON.stringify\<close> prints
  both zeros as \<open>0\<close>.
\<close>

datatype jsnum = Fin real | NaN | PosInf | NegInf

text \<open>
  Rounding to the nearest double. \<open>binade x\<close> is the exponent \<open>e\<close> with
  \<open>2^e \<le> |x| < 2^(e+1)\<close>, and \<open>-1022\<close> below \<open>2^-1022\<close>, where the subnormal numbers
  lie; \<open>ulp x\<close> is the distance between neighbouring doubles there (53 significant
  bits). \<open>rnd x\<close> is the multiple of \<open>ulp x\<close> nearest to \<open>x\<close>, the even multiple when
  two are equally near.
\<close>

definition binade :: "real \<Rightarrow> int" where
  "binade x = (if x = 0 then - 1022 else max \<lfloor>log 2 \<bar>x\<bar>\<rfloor> (- 1022))"

definition ulp :: "real \<Rightarrow> real" where
  "ulp x = 2 powi (binade x - 52)"

definition round_even :: "real \<Rightarrow> int" where
  "round_even q =
     (if q - of_int \<lfloor>q\<rfloor> < 1 / 2 then \<lfloor>q\<rfloor>
      else if 1 / 2 < q - of_int \<lfloor>q\<rfloor> then \<lfloor>q\<rfloor> + 1
      else if even \<lfloor>q\<rfloor> then \<lfloor>q\<rfloor> else \<lfloor>q\<rfloor> + 1)"

definition round_to :: "real \<Rightarrow> real \<Rightarrow> real" where
  "round_to u x = of_int (round_even (x / u)) * u"

definition rnd :: "real \<Rightarrow> real" where
  "rnd x = round_to (ulp x) x"

text \<open>
  The result of an arithmetic operation whose exact value is \<open>x\<close>: \<open>x\<close> rounded, and an
  infinity when the rounded value reaches \<open>2^1024\<close>.
\<close>

definition overflow :: "real \<Rightarrow> jsnum" where
  "overflow y = (if 2 powi 1024 \<le> y then PosInf else if y \<le> - (2 powi 1024) then NegInf else Fin y)"

definition fl :: "real \<Rightarrow> jsnum" where
  "fl x = overflow (rnd x)"

text \<open>
  Numbers reach the controller as text: in a JSON body, or in a string of the cache.
  Where a number is written by its text, \<open>Fin x\<close> is the value \<open>x\<close> that the text
  denotes and \<open>parsed\<close> the double that \<open>JSON.parse\<close> or \<open>Number\<close> makes of it: the
  double nearest to \<open>x\<close>, or an infinity. A double is parsed as itself.
\<close>

fun parsed :: "jsnum \<Rightarrow> jsnum" where
  "parsed (Fin x) = fl x"
| "parsed n = n"

text \<open>The operators \<open>+\<close>, \<open>*\<close> and \<open>/\<close> on numbers.\<close>

fun is_neg :: "jsnum \<Rightarrow> bool" where
  "is_neg (Fin a) = (a < 0)"
| "is_neg NaN = False"
| "is_neg PosInf = False"
| "is_neg NegInf = True"

fun js_add :: "jsnum \<Rightarrow> jsnum \<Rightarrow> jsnum" where
  "js_add (Fin a) (Fin b) = fl (a + b)"
| "js_add NaN y = NaN"
| "js_add x NaN = NaN"
| "js_add (Fin a) y = y"
| "js_add x (Fin b) = x"
| "js_add x y = (if x = y then x else NaN)"

fun js_mul :: "jsnum \<Rightarrow> jsnum \<Rightarrow> jsnum" where
  "js_mul (Fin a) (Fin b) = fl (a * b)"
| "js_mul NaN y = NaN"
| "js_mul x NaN = NaN"
| "js_mul x y =
     (if x = Fin 0 \<or> y = Fin 0 then NaN else if is_neg x = is_neg y then PosInf else NegInf)"

fun js_div :: "jsnum \<Rightarrow> jsnum \<Rightarrow> jsnum" where
  "js_div (Fin a) (Fin b) =
     (if b = 0 then (if a = 0 then NaN else if 0 < a then PosInf else NegInf) else fl (a / b))"
| "js_div NaN y = NaN"
| "js_div x NaN = NaN"
| "js_div (Fin a) y = Fin 0"
| "js_div x (Fin b) = (if is_neg x = (b < 0) then PosInf else NegInf)"
| "js_div x y = NaN"

text \<open>
  \<open>Math.round(x)\<close>: the integer nearest to \<open>x\<close>, halves going up. It is exact: a double
  of magnitude \<open>2^52\<close> or more is an integer already. An infinity and NaN are returned
  as they are.
\<close>

definition Math_round :: "real \<Rightarrow> int" where
  "Math_round x = \<lfloor>x + 1 / 2\<rfloor>"

fun js_round :: "jsnum \<Rightarrow> jsnum" where
  "js_round (Fin x) = Fin (of_int (Math_round x))"
| "js_round n = n"

text \<open>\<open>Number.isFinite(n)\<close>.\<close>

fun isFinite :: "jsnum \<Rightarrow> bool" where
  "isFinite (Fin r) = True"
| "isFinite NaN = False"
| "isFinite PosInf = False"
| "isFinite NegInf = False"

section \<open>JavaScript values of the live-tracking controller\<close>

text \<open>
  The fields \<open>lat\<close>, \<open>lng\<close> and \<open>speed\<close> of a request body hold any JSON value, or are
  absent (\<open>undefined\<close>). \<open>JNum n\<close> is a number, written by the value of its JSON text.
  The controller only applies \<open>Number\<close> and \<open>String\<close> to these fields, so a string is
  carried by what \<open>Number\<close> reads from it: \<open>JStr n\<close> is a string that is not empty and
  whose text denotes the number \<open>n\<close> (NaN when it is not the text of a number),
  \<open>JEmptyStr\<close> is the empty string, which \<open>Number\<close> reads as 0. An array or an object
  stands for the string \<open>String\<close> makes of it: \<open>Number\<close> of it is \<open>Number\<close> of that string.
\<close>

datatype jsval = Undefined | Null | JBool bool | JNum jsnum | JEmptyStr | JStr jsnum

text \<open>\<open>Number(v)\<close>.\<close>

fun Number_js :: "jsval \<Rightarrow> jsnum" where
  "Number_js Undefined = NaN"
| "Number_js Null = Fin 0"
| "Number_js (JBool b) = Fin (if b then 1 else 0)"
| "Number_js (JNum n) = parsed n"
| "Number_js JEmptyStr = Fin 0"
| "Number_js (JStr n) = parsed n"

text \<open>
  The cache stores strings. \<open>StringOf v\<close> is the string \<open>String(v)\<close>; reading it back
  with \<open>Number\<close> returns the number it was printed from (the shortest decimal text of a
  double reads back as that double), the number a string reads as, and NaN for the
  texts \<open>undefined\<close>, \<open>null\<close>, \<open>true\<close> and \<open>false\<close>. Only the empty string is falsy.
\<close>

datatype jstring = StringOf jsval

fun Number_text :: "jstring \<Rightarrow> jsnum" where
  "Number_text (StringOf (JNum n)) = parsed n"
| "Number_text (StringOf Undefined) = NaN"
| "Number_text (StringOf Null) = NaN"
| "Number_text (StringOf (JBool b)) = NaN"
| "Number_text (StringOf JEmptyStr) = Fin 0"
| "Number_text (StringOf (JStr n)) = parsed n"

fun truthy_text :: "jstring \<Rightarrow> bool" where
  "truthy_text (StringOf JEmptyStr) = False"
| "truthy_text (StringOf v) = True"

section \<open>computeAverageSpeed\<close>

text \<open>The filter \<open>Number.isFinite(n) && n >= 0\<close>.\<close>

fun finite_nonneg :: "jsnum \<Rightarrow> bool" where
  "finite_nonneg (Fin r) = (0 \<le> r)"
| "finite_nonneg NaN = False"
| "finite_nonneg PosInf = False"
| "finite_nonneg NegInf = False"

text \<open>
  \<open>nums.reduce((a, b) => a + b, 0)\<close> adds from the left, starting from 0; the sum can
  overflow to \<open>Infinity\<close>, which the division, the multiplication and \<open>Math.round\<close> pass on.
\<close>

definition computeAverageSpeed :: "jstring list \<Rightarrow> jsnum" where
  "computeAverageSpeed speeds =
     (let nums = filter finite_nonneg (map Number_text speeds) in
      if length nums = 0 then Fin 0
      else js_div (js_round (js_mul (js_div (foldl js_add (Fin 0) nums) (Fin (real (length nums))))
                                    (Fin 10)))
                  (Fin 10))"

text \<open>The finite non-negative entries of a ring, in ring order.\<close>

definition valid_speeds :: "jstring list \<Rightarrow> real list" where
  "valid_speeds ring = [r. t \<leftarrow> ring, r \<leftarrow> (case Number_text t of Fin r \<Rightarrow> if 0 \<le> r then [r] else [] | _ \<Rightarrow> [])]"

text \<open>
  The specification's words, read over the reals: the arithmetic mean, rounded to one
  decimal place.
\<close>

definition mean :: "real list \<Rightarrow> real" where
  "mean xs = sum_list xs / real (length xs)"

definition round1 :: "real \<Rightarrow> real" where
  "round1 x = real_of_int (round (x * 10)) / 10"

text \<open>
  The same words read in double arithmetic, as in the specification's worked example
  \<open>round((0+90+60)/3 * 10)/10\<close>: the entries are added in ring order, and every operation
  rounds its result.
\<close>

fun double_sum :: "jsnum \<Rightarrow> real list \<Rightarrow> jsnum" where
  "double_sum acc [] = acc"
| "double_sum acc (x # xs) = double_sum (js_add acc (Fin x)) xs"

definition double_mean :: "real list \<Rightarrow> jsnum" where
  "double_mean xs = js_div (double_sum (Fin 0) xs) (Fin (real (length xs)))"

definition double_round1 :: "jsnum \<Rightarrow> jsnum" where
  "double_round1 x = js_div (js_round (js_mul x (Fin 10))) (Fin 10)"

text \<open>A number that is neither NaN nor negative.\<close>

fun nonneg_num :: "jsnum \<Rightarrow> bool" where
  "nonneg_num (Fin r) = (0 \<le> r)"
| "nonneg_num PosInf = True"
| "nonneg_num NaN = False"
| "nonneg_num NegInf = False"

section \<open>Documents, cache entries and the composite payload\<close>

text \<open>A stop of a route document: \<open>{stopId, name, latitude, longitude}\<close>.\<close>

record stop =
  stopId :: string
  name :: string
  latitude :: real
  longitude :: real

text \<open>
  The durable store. A Bus document is read for \<open>String(busDoc.routeId)\<close>, a Polyline
  document for its encoded \<open>geometry\<close>, a Route document for \<open>stops\<close> (which may be
  missing: the code reads \<open>routeDoc.stops || []\<close>).
\<close>

record bus_doc =
  doc_routeId :: string

record polyline_doc =
  geometry :: string

record route_doc =
  doc_stops :: "stop list option"

text \<open>
  The text of a cache field that holds JSON: \<open>Json v\<close> is \<open>JSON.stringify(v)\<close>, which
  \<open>JSON.parse\<close> reads back as \<open>v\<close>; \<open>Malformed\<close> is a text on which \<open>JSON.parse\<close>
  throws. An empty text counts as a missing field (both are falsy).
\<close>

datatype 'a jsontext = Json 'a | Malformed

fun JSON_parse :: "'a jsontext \<Rightarrow> 'a option" where
  "JSON_parse (Json v) = Some v"
| "JSON_parse Malformed = None"

type_synonym coords = "(real \<times> real) list"

text \<open>The hash \<open>route:<routeId>\<close> with its fields \<open>polyline\<close> and \<open>stops\<close> (\<open>cached.polyline\<close>, \<open>cached.stops\<close>).\<close>

record route_hash =
  cached_polyline :: "coords jsontext option"
  cached_stops :: "stop list jsontext option"

text \<open>
  The hash \<open>bus:<busId>\<close>. \<open>lastUpdated\<close> is an ISO-8601 text with millisecond
  precision, held as the milliseconds since the epoch that \<open>new Date(text).getTime()\<close>
  reads from it.
\<close>

record bus_hash =
  lastLat :: "jstring option"
  lastLng :: "jstring option"
  lastUpdated :: "int option"
  routeId :: "string option"

record latlng =
  loc_lat :: jsnum
  loc_lng :: jsnum

record eta_stop =
  eta_stopId :: string
  eta_name :: string
  etaMinutes :: int

text \<open>The composite payload \<open>{busId, routeId, snappedLocation, avgSpeed, lastUpdated, etaStops, status}\<close>.\<close>

record payload =
  pl_busId :: string
  pl_routeId :: string
  snappedLocation :: "latlng option"
  avgSpeed :: jsnum
  pl_lastUpdated :: "int option"
  etaStops :: "eta_stop list"
  status :: string

text \<open>An event sent through Socket.IO: to one room, or to every socket when there is no room.\<close>

record emission =
  room :: "string option"
  event :: string
  data :: payload

text \<open>
  The body of an HTTP response: \<open>{message}\<close>, \<open>{success: false, message}\<close>,
  \<open>{success: true, ...payload}\<close> or the payload itself.
\<close>

datatype body = Message string | Failure string | Success payload | Composite payload

record response =
  code :: nat
  body :: body

text \<open>
  JSON values as they go on the wire, to compare a response body with an emitted
  payload. \<open>JSON.stringify\<close> prints NaN and the infinities as \<open>null\<close>.
\<close>

datatype json =
  JNull | JB bool | JN real | JS string | JIso int | JA "json list" | JO "(string \<times> json) list"

fun num_json :: "jsnum \<Rightarrow> json" where
  "num_json (Fin r) = JN r"
| "num_json n = JNull"

definition latlng_json :: "latlng \<Rightarrow> json" where
  "latlng_json p = JO [(''lat'', num_json (loc_lat p)), (''lng'', num_json (loc_lng p))]"

definition eta_json :: "eta_stop \<Rightarrow> json" where
  "eta_json e = JO [(''stopId'', JS (eta_stopId e)), (''name'', JS (eta_name e)),
                    (''etaMinutes'', JN (real_of_int (etaMinutes e)))]"

definition payload_fields :: "payload \<Rightarrow> (string \<times> json) list" where
  "payload_fields p =
     [(''busId'', JS (pl_busId p)),
      (''routeId'', JS (pl_routeId p)),
      (''snappedLocation'', (case snappedLocation p of None \<Rightarrow> JNull | Some l \<Rightarrow> latlng_json l)),
      (''avgSpeed'', num_json (avgSpeed p)),
      (''lastUpdated'', (case pl_lastUpdated p of None \<Rightarrow> JNull | Some t \<Rightarrow> JIso t)),
      (''etaStops'', JA (map eta_json (etaStops p))),
      (''status'', JS (status p))]"

definition payload_json :: "payload \<Rightarrow> json" where
  "payload_json p = JO (payload_fields p)"

fun body_json :: "body \<Rightarrow> json" where
  "body_json (Message m) = JO [(''message'', JS m)]"
| "body_json (Failure m) = JO [(''success'', JB False), (''message'', JS m)]"
| "body_json (Success p) = JO ((''success'', JB True) # payload_fields p)"
| "body_json (Composite p) = payload_json p"

section \<open>The world: durable store, cache, socket server, failures\<close>

text \<open>
  The three families of cache keys are three maps, each under its full key. \<open>faults\<close>
  scripts the failures of the stores: every call of a store operation takes the next
  entry, and fails (the promise rejects) when it is \<open>True\<close>; an exhausted script means
  no failure. \<open>io\<close> tells whether \<open>initSocket\<close> has run.
\<close>

record world =
  Buses :: "string \<rightharpoonup> bus_doc"
  Polylines :: "string \<rightharpoonup> polyline_doc"
  Routes :: "string \<rightharpoonup> route_doc"
  busHashes :: "string \<rightharpoonup> bus_hash"
  speedLists :: "string \<Rightarrow> jstring list"
  routeHashes :: "string \<rightharpoonup> route_hash"
  io :: bool
  emitted :: "emission list"
  faults :: "bool list"

datatype err = StoreError | LibraryError

type_synonym 'a action = "world \<Rightarrow> (err + 'a) \<times> world"

definition ret :: "'a \<Rightarrow> 'a action" where
  "ret x w = (Inr x, w)"

text \<open>\<open>x = await m; f x\<close>: a rejected promise ends the function with its error.\<close>

definition await :: "'a action \<Rightarrow> ('a \<Rightarrow> 'b action) \<Rightarrow> 'b action" where
  "await m f w = (case m w of (Inl e, w') \<Rightarrow> (Inl e, w') | (Inr x, w') \<Rightarrow> f x w')"

text \<open>\<open>Promise.all([m1, m2])\<close>: both operations are started; it rejects when either does.\<close>

definition Promise_all :: "'a action \<Rightarrow> 'b action \<Rightarrow> ('a \<times> 'b) action" where
  "Promise_all m1 m2 w =
     (case m1 w of (r1, w1) \<Rightarrow>
        (case m2 w1 of (r2, w2) \<Rightarrow>
           (case r1 of Inl e \<Rightarrow> (Inl e, w2)
            | Inr x \<Rightarrow> (case r2 of Inl e \<Rightarrow> (Inl e, w2) | Inr y \<Rightarrow> (Inr (x, y), w2)))))"

text \<open>
  A store operation takes the next entry of the failure script (\<open>pop\<close>); it rejects when
  that entry says so (\<open>failing\<close>), and reads or writes otherwise.
\<close>

definition failing :: "world \<Rightarrow> bool" where
  "failing w = (case faults w of [] \<Rightarrow> False | b # _ \<Rightarrow> b)"

definition pop :: "world \<Rightarrow> world" where
  "pop w = w\<lparr>faults := tl (faults w)\<rparr>"

definition store_op :: "(world \<Rightarrow> 'a \<times> world) \<Rightarrow> 'a action" where
  "store_op f w =
     (if failing w then (Inl StoreError, pop w)
      else (case f (pop w) of (x, w') \<Rightarrow> (Inr x, w')))"

text \<open>A world whose stores do not fail from now on.\<close>

definition healthy :: "world \<Rightarrow> bool" where
  "healthy w = (True \<notin> set (faults w))"

subsection \<open>The durable store (read only)\<close>

definition Bus_findOne :: "string \<Rightarrow> bus_doc option action" where
  "Bus_findOne busId = store_op (\<lambda>w. (Buses w busId, w))"

definition Polyline_findOne :: "string \<Rightarrow> polyline_doc option action" where
  "Polyline_findOne rid = store_op (\<lambda>w. (Polylines w rid, w))"

definition Route_findById :: "string \<Rightarrow> route_doc option action" where
  "Route_findById rid = store_op (\<lambda>w. (Routes w rid, w))"

subsection \<open>The cache client: hset, hgetall, lpush, ltrim, lrange\<close>

text \<open>
  The client is taken to hand back the strings it was given. (A client that parses
  what it reads as JSON would hand back the texts \<open>null\<close>, \<open>true\<close> and \<open>false\<close> as
  values that \<open>Number\<close> reads as 0, 1 and 0.)
\<close>

text \<open>\<open>hset(key, {lastLat, lastLng, lastUpdated, routeId})\<close> sets the four fields of the hash.\<close>

definition hset_bus :: "string \<Rightarrow> jstring \<Rightarrow> jstring \<Rightarrow> int \<Rightarrow> string \<Rightarrow> unit action" where
  "hset_bus key slat slng t rid =
     store_op (\<lambda>w. ((), w\<lparr>busHashes := (busHashes w)(key \<mapsto>
        \<lparr>lastLat = Some slat, lastLng = Some slng, lastUpdated = Some t, routeId = Some rid\<rparr>)\<rparr>))"

text \<open>\<open>hset(key, {polyline, stops})\<close>.\<close>

definition hset_route :: "string \<Rightarrow> coords jsontext \<Rightarrow> stop list jsontext \<Rightarrow> unit action" where
  "hset_route key p s =
     store_op (\<lambda>w. ((), w\<lparr>routeHashes := (routeHashes w)(key \<mapsto> \<lparr>cached_polyline = Some p, cached_stops = Some s\<rparr>)\<rparr>))"

text \<open>\<open>hgetall(key)\<close>: the hash, or null when the key does not exist.\<close>

definition hgetall_bus :: "string \<Rightarrow> bus_hash option action" where
  "hgetall_bus key = store_op (\<lambda>w. (busHashes w key, w))"

definition hgetall_route :: "string \<Rightarrow> route_hash option action" where
  "hgetall_route key = store_op (\<lambda>w. (routeHashes w key, w))"

definition lpush :: "string \<Rightarrow> jstring \<Rightarrow> unit action" where
  "lpush key v = store_op (\<lambda>w. ((), w\<lparr>speedLists := (speedLists w)(key := v # speedLists w key)\<rparr>))"

text \<open>\<open>ltrim(key, start, stop)\<close> keeps the entries at the indices \<open>start..stop\<close>.\<close>

definition ltrim :: "string \<Rightarrow> nat \<Rightarrow> nat \<Rightarrow> unit action" where
  "ltrim key start stop =
     store_op (\<lambda>w. ((), w\<lparr>speedLists := (speedLists w)(key := take (Suc stop - start) (drop start (speedLists w key)))\<rparr>))"

definition lrange :: "string \<Rightarrow> nat \<Rightarrow> nat \<Rightarrow> jstring list action" where
  "lrange key start stop = store_op (\<lambda>w. (take (Suc stop - start) (drop start (speedLists w key)), w))"

subsection \<open>emitBusUpdate\<close>

definition emitBusUpdate :: "string \<Rightarrow> payload \<Rightarrow> world \<Rightarrow> world" where
  "emitBusUpdate rid p w =
     (if \<not> io w then w
      else
        let room = (if rid \<noteq> [] then Some (''route:'' @ rid) else None)
        in w\<lparr>emitted := emitted w @ [\<lparr>room = room, event = ''bus:update'', data = p\<rparr>]\<rparr>)"

section \<open>getRouteGeometryAndStops\<close>

text \<open>
  \<open>polyline.decode\<close> of the library is a parameter: it turns the encoded geometry into
  \<open>[lat, lng]\<close> pairs.
\<close>

type_synonym decoder = "string \<Rightarrow> (real \<times> real) list"

text \<open>The cached branch: both fields present and both parse, else fall through.\<close>

definition cached_geometry :: "route_hash option \<Rightarrow> (coords \<times> stop list) option" where
  "cached_geometry cached =
     (case cached of
        None \<Rightarrow> None
      | Some h \<Rightarrow>
          (case cached_polyline h of
             None \<Rightarrow> None
           | Some p \<Rightarrow>
               (case cached_stops h of
                  None \<Rightarrow> None
                | Some s \<Rightarrow>
                    (case JSON_parse p of
                       None \<Rightarrow> None
                     | Some cs \<Rightarrow>
                         (case JSON_parse s of None \<Rightarrow> None | Some ss \<Rightarrow> Some (cs, ss))))))"

definition getRouteGeometryAndStops ::
  "decoder \<Rightarrow> string \<Rightarrow> (coords option \<times> stop list option) action" where
  "getRouteGeometryAndStops decode rid =
     (let redisKey = ''route:'' @ rid in
      await (hgetall_route redisKey) (\<lambda>cached.
        case cached_geometry cached of
          Some (cs, ss) \<Rightarrow> ret (Some cs, Some ss)
        | None \<Rightarrow>
            await (Promise_all (Polyline_findOne rid) (Route_findById rid)) (\<lambda>(polyDoc, routeDoc).
              case polyDoc of
                None \<Rightarrow> ret (None, None)
              | Some pd \<Rightarrow>
                  (case routeDoc of
                     None \<Rightarrow> ret (None, None)
                   | Some rd \<Rightarrow>
                       let latLng = decode (geometry pd);
                           cs = map (\<lambda>(lat, lng). (lng, lat)) latLng;
                           ss = (case doc_stops rd of None \<Rightarrow> [] | Some l \<Rightarrow> l)
                       in await (hset_route redisKey (Json cs) (Json ss)) (\<lambda>_. ret (Some cs, Some ss))))))"

section \<open>computeSnappedAndEtas\<close>

text \<open>
  \<open>turf.nearestPointOnLine(turf.lineString(coords), turf.point([lng, lat]))\<close> is a
  parameter. It returns the snapped \<open>[lng, lat]\<close> and \<open>properties.location\<close>, the
  distance along the line in kilometres (\<open>None\<close> when the property is missing or NaN),
  or throws (\<open>None\<close> for the whole result).
\<close>

record snap =
  snap_lng :: real
  snap_lat :: real
  location :: "real option"

type_synonym matcher = "coords \<Rightarrow> jsnum \<times> jsnum \<Rightarrow> snap option"

text \<open>
  \<open>Number(p.properties.location) || 0\<close>. The location is a double: of a matcher that
  computes with reals, the nearest double is taken.
\<close>

definition location_or_0 :: "snap \<Rightarrow> real" where
  "location_or_0 p = (case location p of None \<Rightarrow> 0 | Some d \<Rightarrow> rnd d)"

text \<open>
  \<open>kmh = Math.max(1, Number(avgSpeedKmh) || 0)\<close> is a number from 1 upwards, or
  \<open>Infinity\<close> when the average speed is: NaN is replaced by 0 before the maximum is
  taken, and the maximum of 1 and \<open>-Infinity\<close> is 1.
\<close>

datatype kmh = Kmh real | KmhInfinity

definition max_1 :: "jsnum \<Rightarrow> kmh" where
  "max_1 avgSpeedKmh =
     (case parsed avgSpeedKmh of
        Fin a \<Rightarrow> Kmh (max 1 a)
      | NaN \<Rightarrow> Kmh 1
      | PosInf \<Rightarrow> KmhInfinity
      | NegInf \<Rightarrow> Kmh 1)"

text \<open>
  \<open>remainingKm / kmh\<close> for a finite \<open>remainingKm\<close>. The quotient is no larger than
  \<open>remainingKm\<close>, and 0 when \<open>kmh\<close> is \<open>Infinity\<close>.
\<close>

fun divide_kmh :: "real \<Rightarrow> kmh \<Rightarrow> real" where
  "divide_kmh remainingKm (Kmh k) = rnd (remainingKm / k)"
| "divide_kmh remainingKm KmhInfinity = 0"

text \<open>
  The body of the \<open>map\<close> over the stops. The distances are lengths along a line on
  the Earth, as turf measures them in kilometres: they are far inside the range of the
  doubles, where neither the subtraction nor the multiplication by 60 overflows, so
  these two results are rounded only.
\<close>

definition etaStop :: "matcher \<Rightarrow> coords \<Rightarrow> real \<Rightarrow> kmh \<Rightarrow> stop \<Rightarrow> err + eta_stop" where
  "etaStop nearest cs busDistKm kmh s =
     (case nearest cs (Fin (longitude s), Fin (latitude s)) of
        None \<Rightarrow> Inl LibraryError
      | Some p \<Rightarrow>
          let stopDistKm = location_or_0 p;
              remainingKm = rnd (stopDistKm - busDistKm);
              remainingKm = (if remainingKm < 0 then 0 else remainingKm);
              hours = divide_kmh remainingKm kmh;
              minutes = Math_round (rnd (hours * 60))
          in Inr \<lparr>eta_stopId = stopId s, eta_name = name s, etaMinutes = minutes\<rparr>)"

text \<open>\<open>Array.map\<close> with a callback that may throw: the first throw ends it.\<close>

fun map_throwing :: "('a \<Rightarrow> err + 'b) \<Rightarrow> 'a list \<Rightarrow> err + 'b list" where
  "map_throwing f [] = Inr []"
| "map_throwing f (x # xs) =
     (case f x of
        Inl e \<Rightarrow> Inl e
      | Inr y \<Rightarrow> (case map_throwing f xs of Inl e \<Rightarrow> Inl e | Inr ys \<Rightarrow> Inr (y # ys)))"

definition computeSnappedAndEtas ::
  "matcher \<Rightarrow> coords option \<Rightarrow> stop list option \<Rightarrow> latlng \<Rightarrow> jsnum
     \<Rightarrow> err + (latlng option \<times> eta_stop list)" where
  "computeSnappedAndEtas nearest coords stops busPoint avgSpeedKmh =
     (case coords of
        None \<Rightarrow> Inr (None, [])
      | Some cs \<Rightarrow>
          if length cs = 0 then Inr (None, [])
          else
            (case nearest cs (loc_lng busPoint, loc_lat busPoint) of
               None \<Rightarrow> Inl LibraryError
             | Some snapped \<Rightarrow>
                 let busDistKm = location_or_0 snapped;
                     kmh = max_1 avgSpeedKmh
                 in (case map_throwing (etaStop nearest cs busDistKm kmh)
                            (case stops of None \<Rightarrow> [] | Some ss \<Rightarrow> ss) of
                       Inl e \<Rightarrow> Inl e
                     | Inr etas \<Rightarrow>
                         Inr (Some \<lparr>loc_lat = Fin (snap_lat snapped), loc_lng = Fin (snap_lng snapped)\<rparr>,
                              etas))))"

text \<open>A synchronous computation inside an async function: a throw rejects the promise.\<close>

definition lift :: "err + 'a \<Rightarrow> 'a action" where
  "lift r w = (r, w)"

section \<open>updateBusLocation: POST /api/bus/update-location\<close>

text \<open>
  The request body \<open>{busId, lat, lng, speed}\<close>; a missing body reads as four absent
  fields. \<open>busId\<close> is a string or absent. (A number or a boolean in its place acts as
  an absent field when it is falsy and as the string \<open>String\<close> makes of it otherwise;
  an array or an object is handed to the Mongoose query, whose treatment of it lies
  outside this code.)
\<close>

record request =
  busId :: "string option"
  lat :: jsval
  lng :: jsval
  speed :: jsval

text \<open>\<open>!busId\<close>: absent, or the empty string.\<close>

fun falsy :: "string option \<Rightarrow> bool" where
  "falsy None = True"
| "falsy (Some s) = (s = [])"

text \<open>The busId inside a template string or a query.\<close>

fun id_text :: "string option \<Rightarrow> string" where
  "id_text None = ''undefined''"
| "id_text (Some s) = s"

definition emit :: "string \<Rightarrow> payload \<Rightarrow> unit action" where
  "emit rid p w = (Inr (), emitBusUpdate rid p w)"

definition updateBusLocation_try :: "decoder \<Rightarrow> matcher \<Rightarrow> int \<Rightarrow> request \<Rightarrow> response action" where
  "updateBusLocation_try decode nearest now req =
     (if falsy (busId req) \<or> \<not> isFinite (Number_js (lat req)) \<or> \<not> isFinite (Number_js (lng req))
      then ret \<lparr>code = 400, body = Failure ''busId, lat, lng are required''\<rparr>
      else
        await (Bus_findOne (id_text (busId req))) (\<lambda>busDoc.
          case busDoc of
            None \<Rightarrow> ret \<lparr>code = 404, body = Failure ''Bus not found''\<rparr>
          | Some doc \<Rightarrow>
              let rid = doc_routeId doc;
                  nowIso = now;
                  redisKey = ''bus:'' @ id_text (busId req);
                  speedsKey = ''bus:'' @ id_text (busId req) @ '':speeds''
              in
                await (hset_bus redisKey (StringOf (lat req)) (StringOf (lng req)) nowIso rid) (\<lambda>_.
                await (if isFinite (Number_js (speed req))
                       then await (lpush speedsKey (StringOf (speed req))) (\<lambda>_. ltrim speedsKey 0 2)
                       else ret ()) (\<lambda>_.
                await (lrange speedsKey 0 2) (\<lambda>speeds.
                  let avg = computeAverageSpeed speeds in
                await (getRouteGeometryAndStops decode rid) (\<lambda>(coords, stops).
                await (lift (computeSnappedAndEtas nearest coords stops
                               \<lparr>loc_lat = Number_js (lat req), loc_lng = Number_js (lng req)\<rparr> avg))
                  (\<lambda>(snapped, etas).
                  let p = \<lparr>pl_busId = id_text (busId req),
                           pl_routeId = rid,
                           snappedLocation =
                             Some (case snapped of
                                     Some l \<Rightarrow> l
                                   | None \<Rightarrow> \<lparr>loc_lat = Number_js (lat req), loc_lng = Number_js (lng req)\<rparr>),
                           avgSpeed = avg,
                           pl_lastUpdated = Some nowIso,
                           etaStops = etas,
                           status = ''online''\<rparr>
                  in
                await (emit rid p) (\<lambda>_.
                  ret \<lparr>code = 200, body = Success p\<rparr>))))))))"

text \<open>The \<open>catch\<close> of the handler: any rejection or throw becomes a 500.\<close>

definition updateBusLocation :: "decoder \<Rightarrow> matcher \<Rightarrow> int \<Rightarrow> request \<Rightarrow> world \<Rightarrow> response \<times> world" where
  "updateBusLocation decode nearest now req w =
     (case updateBusLocation_try decode nearest now req w of
        (Inr res, w') \<Rightarrow> (res, w')
      | (Inl e, w') \<Rightarrow> (\<lparr>code = 500, body = Failure ''Server error''\<rparr>, w'))"

text \<open>A sequence of ingest calls, each with its arrival time.\<close>

fun ingest_all :: "decoder \<Rightarrow> matcher \<Rightarrow> (int \<times> request) list \<Rightarrow> world \<Rightarrow> world" where
  "ingest_all decode nearest [] w = w"
| "ingest_all decode nearest ((now, req) # calls) w =
     ingest_all decode nearest calls (snd (updateBusLocation decode nearest now req w))"

section \<open>getLiveBus: GET /api/bus/:id/live\<close>

definition getLiveBus_try :: "decoder \<Rightarrow> matcher \<Rightarrow> int \<Rightarrow> string \<Rightarrow> response action" where
  "getLiveBus_try decode nearest now bid =
     await (Bus_findOne bid) (\<lambda>busDoc.
       case busDoc of
         None \<Rightarrow> ret \<lparr>code = 404, body = Message ''Bus not found''\<rparr>
       | Some doc \<Rightarrow>
           let rid = doc_routeId doc;
               redisKey = ''bus:'' @ bid
           in
             await (hgetall_bus redisKey) (\<lambda>busState.
             await (lrange (''bus:'' @ bid @ '':speeds'') 0 2) (\<lambda>speeds.
               let avg = computeAverageSpeed speeds;
                   lastLat' = (case busState of
                                 None \<Rightarrow> None
                               | Some h \<Rightarrow>
                                   (case lastLat h of
                                      None \<Rightarrow> None
                                    | Some t \<Rightarrow> if truthy_text t then Some (Number_text t) else None));
                   lastLng' = (case busState of
                                 None \<Rightarrow> None
                               | Some h \<Rightarrow>
                                   (case lastLng h of
                                      None \<Rightarrow> None
                                    | Some t \<Rightarrow> if truthy_text t then Some (Number_text t) else None));
                   lastUpdated' = (case busState of None \<Rightarrow> None | Some h \<Rightarrow> lastUpdated h);
                   st = (case lastUpdated' of
                           None \<Rightarrow> ''offline''
                         | Some t \<Rightarrow> (let diff = now - t in if diff \<le> 90 * 1000 then ''online'' else ''offline''))
               in
             await (getRouteGeometryAndStops decode rid) (\<lambda>(coords, stops).
             await (case lastLat' of
                      None \<Rightarrow> ret (None, [])
                    | Some la \<Rightarrow>
                        (case lastLng' of
                           None \<Rightarrow> ret (None, [])
                         | Some lo \<Rightarrow>
                             lift (computeSnappedAndEtas nearest coords stops \<lparr>loc_lat = la, loc_lng = lo\<rparr> avg)))
               (\<lambda>(snapped, etas).
               let p = \<lparr>pl_busId = bid,
                        pl_routeId = rid,
                        snappedLocation =
                          (case snapped of
                             Some l \<Rightarrow> Some l
                           | None \<Rightarrow>
                               (case lastLat' of
                                  None \<Rightarrow> None
                                | Some la \<Rightarrow>
                                    (case lastLng' of
                                       None \<Rightarrow> None
                                     | Some lo \<Rightarrow> Some \<lparr>loc_lat = la, loc_lng = lo\<rparr>))),
                        avgSpeed = avg,
                        pl_lastUpdated = lastUpdated',
                        etaStops = etas,
                        status = st\<rparr>
               in ret \<lparr>code = 200, body = Composite p\<rparr>)))))"

definition getLiveBus :: "decoder \<Rightarrow> matcher \<Rightarrow> int \<Rightarrow> string \<Rightarrow> world \<Rightarrow> response \<times> world" where
  "getLiveBus decode nearest now bid w =
     (case getLiveBus_try decode nearest now bid w of
        (Inr res, w') \<Rightarrow> (res, w')
      | (Inl e, w') \<Rightarrow> (\<lparr>code = 500, body = Message ''Server error''\<rparr>, w'))"

section \<open>The ETA rule in the specification's words\<close>


section \<open>Notions used to state the properties\<close>

text \<open>A value that is a finite number: of type number, and neither NaN nor an infinity.\<close>

fun finite_number :: "jsval \<Rightarrow> bool" where
  "finite_number (JNum n) = isFinite (parsed n)"
| "finite_number v = False"

text \<open>The \<open>lastUpdated\<close> field stored for a bus, if any.\<close>

definition stored_lastUpdated :: "world \<Rightarrow> string \<Rightarrow> int option" where
  "stored_lastUpdated w bid =
     (case busHashes w (''bus:'' @ bid) of None \<Rightarrow> None | Some h \<Rightarrow> lastUpdated h)"

text \<open>
  A ring entry that reads back as a finite non-negative number, and one that was
  printed from a value whose \<open>Number\<close> is finite (which is what ingest checks).
\<close>

definition finite_nonneg_entry :: "jstring \<Rightarrow> bool" where
  "finite_nonneg_entry t = finite_nonneg (Number_text t)"

fun from_finite :: "jstring \<Rightarrow> bool" where
  "from_finite (StringOf v) = isFinite (Number_js v)"

definition ring_ok :: "jstring list \<Rightarrow> bool" where
  "ring_ok ring = (length ring \<le> 3 \<and> list_all from_finite ring)"

text \<open>
  A request of bus \<open>bid\<close> that passes the check of \<open>busId\<close>, \<open>lat\<close> and \<open>lng\<close>; and the
  texts of the speeds of a sequence of calls whose \<open>Number\<close> is finite, newest first.
\<close>

definition accepted_for :: "string \<Rightarrow> request \<Rightarrow> bool" where
  "accepted_for bid req =
     (busId req = Some bid \<and> bid \<noteq> [] \<and> isFinite (Number_js (lat req)) \<and> isFinite (Number_js (lng req)))"

definition pushed :: "(int \<times> request) list \<Rightarrow> jstring list" where
  "pushed calls = rev (map (\<lambda>(now, req). StringOf (speed req))
                         (filter (\<lambda>(now, req). isFinite (Number_js (speed req))) calls))"

text \<open>
  The part of \<open>updateBusLocation\<close> from reading the ring back to building the payload,
  named so that the handler can be followed stage by stage.
\<close>

definition compute_payload :: "decoder \<Rightarrow> matcher \<Rightarrow> int \<Rightarrow> request \<Rightarrow> string \<Rightarrow> payload action" where
  "compute_payload decode nearest now req rid =
     await (lrange (''bus:'' @ id_text (busId req) @ '':speeds'') 0 2) (\<lambda>speeds.
     await (getRouteGeometryAndStops decode rid) (\<lambda>(coords, stops).
     await (lift (computeSnappedAndEtas nearest coords stops
                    \<lparr>loc_lat = Number_js (lat req), loc_lng = Number_js (lng req)\<rparr>
                    (computeAverageSpeed speeds)))
       (\<lambda>(snapped, etas).
       ret \<lparr>pl_busId = id_text (busId req),
            pl_routeId = rid,
            snappedLocation =
              Some (case snapped of
                      Some l \<Rightarrow> l
                    | None \<Rightarrow> \<lparr>loc_lat = Number_js (lat req), loc_lng = Number_js (lng req)\<rparr>),
            avgSpeed = computeAverageSpeed speeds,
            pl_lastUpdated = Some now,
            etaStops = etas,
            status = ''online''\<rparr>)))"

text \<open>
  An action that, in a world without failures, leaves the world without failures and
  does not touch the vehicle hashes, the speed rings and the Bus documents; and an
  action that never touches the socket server.
\<close>

definition frames :: "'a action \<Rightarrow> bool" where
  "frames m =
     (\<forall>w r w'. healthy w \<longrightarrow> m w = (r, w') \<longrightarrow>
        healthy w' \<and> speedLists w' = speedLists w \<and> busHashes w' = busHashes w
        \<and> Buses w' = Buses w)"

definition quiet :: "'a action \<Rightarrow> bool" where
  "quiet m = (\<forall>w r w'. m w = (r, w') \<longrightarrow> emitted w' = emitted w \<and> io w' = io w)"

section \<open>A small deployment for concrete runs\<close>

text \<open>
  One bus \<open>V1\<close> on route \<open>R1\<close>, whose line runs due east from longitude 0 to 10 with
  stops at longitudes 2 and 8; an empty cache, the socket server started, no failures.
  \<open>east_matcher\<close> snaps a point onto such a line: the distance along the line is the
  difference of longitudes; it throws on a line of fewer than two points and on a
  point that is not finite.
\<close>

definition decode0 :: decoder where
  "decode0 g = (if g = ''east'' then [(0, 0), (0, 10)] else [])"

fun east_matcher :: matcher where
  "east_matcher ((x0, y0) # c # cs) (Fin x, Fin y) =
     Some \<lparr>snap_lng = x, snap_lat = y0, location = Some (x - x0)\<rparr>"
| "east_matcher cs q = None"

definition stop1 :: stop where
  "stop1 = \<lparr>stopId = ''S1'', name = ''Connaught Place'', latitude = 0, longitude = 2\<rparr>"

definition stop2 :: stop where
  "stop2 = \<lparr>stopId = ''S2'', name = ''Terminus'', latitude = 0, longitude = 8\<rparr>"

definition world0 :: world where
  "world0 =
     \<lparr>Buses = [''V1'' \<mapsto> \<lparr>doc_routeId = ''R1''\<rparr>],
      Polylines = [''R1'' \<mapsto> \<lparr>geometry = ''east''\<rparr>],
      Routes = [''R1'' \<mapsto> \<lparr>doc_stops = Some [stop1, stop2]\<rparr>],
      busHashes = Map.empty,
      speedLists = (\<lambda>k. []),
      routeHashes = Map.empty,
      io = True,
      emitted = [],
      faults = []\<rparr>"

text \<open>A report of bus \<open>V1\<close> at longitude \<open>x\<close> on the line, with the given speed field.\<close>

definition report :: "real \<Rightarrow> jsval \<Rightarrow> request" where
  "report x v = \<lparr>busId = Some ''V1'', lat = JNum (Fin 0), lng = JNum (Fin x), speed = v\<rparr>"

text \<open>
  The speed \<open>2^1023\<close> (about \<open>8.99e307\<close>), a double: twice it is \<open>2^1024\<close>, beyond the
  largest double.
\<close>

definition huge :: real where
  "huge = 2 powi 1023"

text \<open>A report of bus \<open>V1\<close> whose body is \<open>{"busId": "V1", "lat": null, "lng": null}\<close>.\<close>

definition null_report :: request where
  "null_report = \<lparr>busId = Some ''V1'', lat = Null, lng = Null, speed = Undefined\<rparr>"

definition unknown_report :: request where
  "unknown_report = \<lparr>busId = Some ''UNKNOWN'', lat = JNum (Fin 0), lng = JNum (Fin 0), speed = JNum (Fin 0)\<rparr>"

text \<open>The decoded line of route \<open>R1\<close> in \<open>[lng, lat]\<close> order, and a bus at longitude 5 on it.\<close>

definition line0 :: coords where
  "line0 = [(0, 0), (10, 0)]"

definition at5 :: latlng where
  "at5 = \<lparr>loc_lat = Fin 0, loc_lng = Fin 5\<rparr>"

text \<open>
  The world after the first report of \<open>V1\<close> (longitude 5, speed 40, at time 1000); a
  world whose cached entry of \<open>R1\<close> has a polyline that does not parse; a world in which
  the fourth store operation fails; four reports followed by one with a negative speed
  and one without a speed.
\<close>

definition world1 :: world where
  "world1 = snd (updateBusLocation decode0 east_matcher 1000 (report 5 (JNum (Fin 40))) world0)"

definition corrupt_world :: world where
  "corrupt_world =
     world0\<lparr>routeHashes := [''route:R1'' \<mapsto> \<lparr>cached_polyline = Some Malformed, cached_stops = Some (Json [])\<rparr>]\<rparr>"

definition write_failure_world :: world where
  "write_failure_world = world0\<lparr>faults := [False, False, False, True]\<rparr>"

text \<open>A world in which the ninth store operation, the cache write of an ingest, fails.\<close>

definition ingest_write_failure_world :: world where
  "ingest_write_failure_world =
     world0\<lparr>faults := [False, False, False, False, False, False, False, False, True]\<rparr>"

definition reports0 :: "(int \<times> request) list" where
  "reports0 =
     [(1000, report 1 (JNum (Fin 30))), (2000, report 2 (JNum (Fin 60))),
      (3000, report 3 (JNum (Fin 90))), (4000, report 4 (JNum (Fin 0))),
      (5000, report 5 (JNum (Fin (- 5)))), (6000, report 6 Undefined)]"

section \<open>Rounding to the nearest double\<close>

text \<open>
  The binade of a number, computed by halving and doubling; rounding is monotone, odd,
  and leaves a double as it is.
\<close>

lemma floor_log2_eqI:
  assumes "2 powi k \<le> x" "x < 2 powi (k + 1)"
  shows "\<lfloor>log 2 x\<rfloor> = k"
proof -
  have pos: "0 < x" using assms(1) zero_less_power_int [of "2::real" k] by linarith
  have a: "2 powr real_of_int k = (2::real) powi k" by (rule powr_real_of_int') simp_all
  have b: "2 powr real_of_int (k + 1) = (2::real) powi (k + 1)" by (rule powr_real_of_int') simp_all
  show ?thesis
    using pos assms a b by (subst floor_log_eq_powr_iff) auto
qed

lemma floor_log2_bounds:
  assumes "0 < x"
  shows "2 powi \<lfloor>log 2 x\<rfloor> \<le> x \<and> x < 2 powi (\<lfloor>log 2 x\<rfloor> + 1)"
proof -
  have a: "\<And>k. 2 powr real_of_int k = (2::real) powi k" by (rule powr_real_of_int') simp_all
  have "\<lfloor>log 2 x\<rfloor> = \<lfloor>log 2 x\<rfloor>" ..
  then have "2 powr real_of_int \<lfloor>log 2 x\<rfloor> \<le> x \<and> x < 2 powr real_of_int (\<lfloor>log 2 x\<rfloor> + 1)"
    using assms by (subst (asm) floor_log_eq_powr_iff) auto
  then show ?thesis unfolding a .
qed

lemma binade_code [code]:
  "binade x =
     (if x = 0 then - 1022
      else if 2 \<le> \<bar>x\<bar> then binade (x / 2) + 1
      else if 1 \<le> \<bar>x\<bar> then 0
      else max (binade (x * 2) - 1) (- 1022))"
proof (cases "x = 0")
  case True
  then show ?thesis by (simp add: binade_def)
next
  case x: False
  define k where "k = \<lfloor>log 2 \<bar>x\<bar>\<rfloor>"
  have b: "2 powi k \<le> \<bar>x\<bar>" "\<bar>x\<bar> < 2 powi (k + 1)"
    using floor_log2_bounds [of "\<bar>x\<bar>"] x by (simp_all add: k_def)
  have bx: "binade x = max k (- 1022)" using x by (simp add: binade_def k_def)
  have h: "\<lfloor>log 2 \<bar>x / 2\<bar>\<rfloor> = k - 1"
    using b by (intro floor_log2_eqI) (simp_all add: power_int_diff power_int_add)
  have d: "\<lfloor>log 2 \<bar>x * 2\<bar>\<rfloor> = k + 1"
    using b by (intro floor_log2_eqI) (simp_all add: power_int_diff power_int_add)
  have "2 \<le> \<bar>x\<bar> \<Longrightarrow> 1 \<le> k"
    using b(2) by (smt (verit) power_int_increasing power_int_1_right)
  then have c1: "2 \<le> \<bar>x\<bar> \<Longrightarrow> binade (x / 2) + 1 = binade x"
    using x h bx by (simp add: binade_def)
  have c2: "max (binade (x * 2) - 1) (- 1022) = binade x"
    using x d bx by (simp add: binade_def)
  have "\<not> 2 \<le> \<bar>x\<bar> \<Longrightarrow> 1 \<le> \<bar>x\<bar> \<Longrightarrow> \<lfloor>log 2 \<bar>x\<bar>\<rfloor> = 0"
    by (intro floor_log2_eqI) simp_all
  then have c3: "\<not> 2 \<le> \<bar>x\<bar> \<Longrightarrow> 1 \<le> \<bar>x\<bar> \<Longrightarrow> binade x = 0"
    using bx by (simp add: k_def)
  show ?thesis using x c1 c2 c3 by auto
qed


lemma ulp_pos: "0 < ulp x"
  by (simp add: ulp_def)

lemma round_even_bounds: "\<lfloor>q\<rfloor> \<le> round_even q \<and> round_even q \<le> \<lfloor>q\<rfloor> + 1"
  by (simp add: round_even_def)

lemma round_even_of_int [simp]: "round_even (of_int n) = n"
  by (simp add: round_even_def)

lemma round_even_0 [simp]: "round_even 0 = 0"
  using round_even_of_int [of 0] by simp

lemma round_even_numeral [simp]: "round_even (numeral n) = numeral n"
  using round_even_of_int [of "numeral n"] by simp

lemma round_even_mono:
  assumes "q \<le> q'"
  shows "round_even q \<le> round_even q'"
proof (cases "\<lfloor>q\<rfloor> = \<lfloor>q'\<rfloor>")
  case True
  then show ?thesis
    using assms by (auto simp: round_even_def)
next
  case False
  then have "\<lfloor>q\<rfloor> < \<lfloor>q'\<rfloor>"
    using floor_mono [OF assms] by simp
  then show ?thesis
    using round_even_bounds [of q] round_even_bounds [of q'] by linarith
qed

lemma floor_uminus_nonint:
  fixes q :: real
  assumes "of_int \<lfloor>q\<rfloor> \<noteq> q"
  shows "\<lfloor>- q\<rfloor> = - \<lfloor>q\<rfloor> - 1"
  using assms by (simp add: floor_minus ceiling_altdef)

lemma round_even_uminus: "round_even (- q) = - round_even q"
proof (cases "of_int \<lfloor>q\<rfloor> = q")
  case True
  then obtain n where "q = of_int n"
    by metis
  then have "- q = of_int (- n)"
    by simp
  then show ?thesis
    using \<open>q = of_int n\<close> by (simp only: round_even_of_int)
next
  case False
  note f = floor_uminus_nonint [OF False]
  have lt: "of_int \<lfloor>q\<rfloor> < q"
    using False of_int_floor_le [of q] by linarith
  show ?thesis
    using lt by (auto simp: round_even_def f)
qed

lemma binade_uminus [simp]: "binade (- x) = binade x"
  by (simp add: binade_def)

lemma binade_ge: "- 1022 \<le> binade x"
  by (simp add: binade_def)

lemma binade_upper: "\<bar>x\<bar> < 2 powi (binade x + 1)"
proof (cases "x = 0")
  case True
  then show ?thesis by simp
next
  case False
  then have "\<bar>x\<bar> < 2 powi (\<lfloor>log 2 \<bar>x\<bar>\<rfloor> + 1)"
    using floor_log2_bounds [of "\<bar>x\<bar>"] by simp
  also have "\<dots> \<le> 2 powi (binade x + 1)"
    using False by (intro power_int_increasing) (simp_all add: binade_def)
  finally show ?thesis .
qed

lemma binade_lower:
  assumes "- 1022 < binade x"
  shows "2 powi binade x \<le> \<bar>x\<bar>"
proof -
  have x: "x \<noteq> 0"
    using assms by (auto simp: binade_def)
  then have "binade x = \<lfloor>log 2 \<bar>x\<bar>\<rfloor>"
    using assms by (simp add: binade_def max_def split: if_splits)
  then show ?thesis
    using floor_log2_bounds [of "\<bar>x\<bar>"] x by simp
qed

lemma binade_eqI:
  assumes "2 powi k \<le> \<bar>x\<bar>" and "\<bar>x\<bar> < 2 powi (k + 1)" and "- 1022 \<le> k"
  shows "binade x = k"
proof -
  have "0 < \<bar>x\<bar>"
    using assms(1) zero_less_power_int [of "2::real" k] by linarith
  then have "x \<noteq> 0" by simp
  moreover have "\<lfloor>log 2 \<bar>x\<bar>\<rfloor> = k"
    using assms(1,2) by (rule floor_log2_eqI)
  ultimately show ?thesis
    using assms(3) by (simp add: binade_def)
qed

lemma binade_mono:
  assumes "\<bar>x\<bar> \<le> \<bar>y\<bar>"
  shows "binade x \<le> binade y"
proof (cases "x = 0")
  case True
  then show ?thesis by (simp add: binade_def)
next
  case False
  then have y: "y \<noteq> 0" using assms by auto
  have "log 2 \<bar>x\<bar> \<le> log 2 \<bar>y\<bar>"
    using False y assms by simp
  then have "\<lfloor>log 2 \<bar>x\<bar>\<rfloor> \<le> \<lfloor>log 2 \<bar>y\<bar>\<rfloor>"
    by (rule floor_mono)
  then show ?thesis
    using False y by (simp add: binade_def)
qed

lemma rnd_0 [simp]: "rnd 0 = 0"
  by (simp add: rnd_def round_to_def)

lemma rnd_uminus: "rnd (- x) = - rnd x"
  by (simp add: rnd_def round_to_def ulp_def round_even_uminus)

lemma round_to_mono:
  assumes "0 < u" and "x \<le> y"
  shows "round_to u x \<le> round_to u y"
proof -
  have "x / u \<le> y / u"
    using assms by (simp add: divide_right_mono)
  then have "round_even (x / u) \<le> round_even (y / u)"
    by (rule round_even_mono)
  then have "real_of_int (round_even (x / u)) \<le> real_of_int (round_even (y / u))"
    by simp
  then show ?thesis
    unfolding round_to_def using assms(1) by (simp add: mult_right_mono)
qed

lemma round_to_pow:
  assumes "0 \<le> d"
  shows "round_to (2 powi (e - d)) (2 powi e) = 2 powi e"
proof -
  have "(2::real) powi e / 2 powi (e - d) = 2 powi (e - (e - d))"
    by (subst power_int_diff) simp_all
  also have "\<dots> = 2 powi d"
    by simp
  also have "\<dots> = of_int (2 ^ nat d)"
    using assms by (simp add: power_int_def)
  finally have q: "(2::real) powi e / 2 powi (e - d) = of_int (2 ^ nat d)" .
  have "round_to (2 powi (e - d)) (2 powi e) = of_int (2 ^ nat d) * 2 powi (e - d)"
    unfolding round_to_def q round_even_of_int ..
  also have "\<dots> = 2 powi d * 2 powi (e - d)"
    using assms by (simp add: power_int_def)
  also have "\<dots> = 2 powi (d + (e - d))"
    by (subst power_int_add) simp_all
  finally show ?thesis by simp
qed

lemma rnd_nonneg:
  assumes "0 \<le> x"
  shows "0 \<le> rnd x"
proof -
  have "round_to (ulp x) 0 \<le> round_to (ulp x) x"
    using ulp_pos assms by (rule round_to_mono)
  then show ?thesis
    by (simp add: rnd_def round_to_def)
qed

lemma rnd_upper:
  assumes "0 \<le> x"
  shows "rnd x \<le> 2 powi (binade x + 1)"
proof -
  have "x \<le> 2 powi (binade x + 1)"
    using binade_upper [of x] assms by simp
  then have "round_to (ulp x) x \<le> round_to (ulp x) (2 powi (binade x + 1))"
    using ulp_pos by (intro round_to_mono)
  also have "round_to (ulp x) (2 powi (binade x + 1)) = 2 powi (binade x + 1)"
    using round_to_pow [of 53 "binade x + 1"] by (simp add: ulp_def)
  finally show ?thesis
    by (simp add: rnd_def)
qed

lemma rnd_lower:
  assumes "0 \<le> x" and "- 1022 < binade x"
  shows "2 powi binade x \<le> rnd x"
proof -
  have "2 powi binade x \<le> x"
    using binade_lower [OF assms(2)] assms(1) by simp
  then have "round_to (ulp x) (2 powi binade x) \<le> round_to (ulp x) x"
    using ulp_pos by (intro round_to_mono)
  moreover have "round_to (ulp x) (2 powi binade x) = 2 powi binade x"
    using round_to_pow [of 52 "binade x"] by (simp add: ulp_def)
  ultimately show ?thesis
    by (simp add: rnd_def)
qed

lemma rnd_mono_nonneg:
  assumes "0 \<le> x" and "x \<le> y"
  shows "rnd x \<le> rnd y"
proof (cases "binade x = binade y")
  case True
  then have "ulp x = ulp y"
    by (simp add: ulp_def)
  then show ?thesis
    using round_to_mono [OF ulp_pos assms(2), of y] by (simp add: rnd_def)
next
  case False
  have "binade x \<le> binade y"
    using assms by (intro binade_mono) simp
  with False have lt: "binade x < binade y"
    by simp
  have "rnd x \<le> 2 powi (binade x + 1)"
    using assms(1) by (rule rnd_upper)
  also have "\<dots> \<le> 2 powi binade y"
    using lt by (intro power_int_increasing) simp_all
  also have "\<dots> \<le> rnd y"
    using assms lt binade_ge [of x] by (intro rnd_lower) simp_all
  finally show ?thesis .
qed

lemma rnd_mono:
  assumes "x \<le> y"
  shows "rnd x \<le> rnd y"
proof (cases "0 \<le> x")
  case True
  then show ?thesis
    using assms by (rule rnd_mono_nonneg)
next
  case neg: False
  show ?thesis
  proof (cases "0 \<le> y")
    case True
    have "0 \<le> rnd (- x)"
      using neg by (intro rnd_nonneg) simp
    then have "rnd x \<le> 0"
      using rnd_uminus [of x] by simp
    also have "0 \<le> rnd y"
      using True by (rule rnd_nonneg)
    finally show ?thesis .
  next
    case False
    then have "rnd (- y) \<le> rnd (- x)"
      using assms by (intro rnd_mono_nonneg) simp_all
    then show ?thesis
      by (simp add: rnd_uminus)
  qed
qed

lemma rnd_exact:
  assumes "x = of_int m * 2 powi k" and "\<bar>m\<bar> < 2 ^ 53" and "- 1074 \<le> k"
  shows "rnd x = x"
proof (cases "m = 0")
  case True
  with assms(1) show ?thesis by simp
next
  case False
  define e where "e = binade x"
  have absx: "\<bar>x\<bar> = of_int \<bar>m\<bar> * 2 powi k"
    by (simp add: assms(1) abs_mult)
  have "e \<le> k + 52"
  proof (rule ccontr)
    assume "\<not> e \<le> k + 52"
    then have big: "k + 53 \<le> e" by simp
    then have "- 1022 < binade x"
      using assms(3) by (simp add: e_def)
    then have "2 powi e \<le> \<bar>x\<bar>"
      unfolding e_def by (rule binade_lower)
    moreover have "\<bar>x\<bar> < 2 ^ 53 * 2 powi k"
      unfolding absx using assms(2) by (intro mult_strict_right_mono) (simp_all flip: of_int_less_iff [where 'a = real])
    moreover have "(2::real) ^ 53 * 2 powi k = 2 powi (53 + k)"
      by (subst power_int_add) simp_all
    moreover have "(2::real) powi (53 + k) \<le> 2 powi e"
      using big by (intro power_int_increasing) simp_all
    ultimately show False by linarith
  qed
  then have d: "0 \<le> k + 52 - e" by simp
  have "x / ulp x = of_int m * (2 powi k / 2 powi (e - 52))"
    by (simp add: assms(1) ulp_def e_def)
  also have "2 powi k / 2 powi (e - 52) = (2::real) powi (k - (e - 52))"
    by (subst power_int_diff) simp_all
  also have "\<dots> = of_int (2 ^ nat (k + 52 - e))"
    using d by (simp add: power_int_def algebra_simps)
  finally have q: "x / ulp x = of_int (m * 2 ^ nat (k + 52 - e))"
    by simp
  have "rnd x = x / ulp x * ulp x"
    unfolding rnd_def round_to_def q round_even_of_int ..
  then show ?thesis
    using ulp_pos [of x] by simp
qed

lemma rnd_of_int:
  assumes "\<bar>n\<bar> < 2 ^ 53"
  shows "rnd (of_int n) = of_int n"
  using rnd_exact [of "of_int n" n 0] assms by simp

lemma rnd_code [code]:
  "rnd x = (if of_int \<lfloor>x\<rfloor> = x \<and> \<bar>x\<bar> < 9007199254740992 then x else round_to (ulp x) x)"
proof (cases "of_int \<lfloor>x\<rfloor> = x \<and> \<bar>x\<bar> < 9007199254740992")
  case True
  then have e: "of_int \<lfloor>x\<rfloor> = x" and b: "\<bar>x\<bar> < 9007199254740992"
    by blast+
  have "\<bar>real_of_int \<lfloor>x\<rfloor>\<bar> < 9007199254740992"
    by (simp only: e b)
  then have "\<bar>\<lfloor>x\<rfloor>\<bar> < 9007199254740992"
    by linarith
  then have "\<bar>\<lfloor>x\<rfloor>\<bar> < 2 ^ 53"
    by simp
  then have "rnd (of_int \<lfloor>x\<rfloor>) = of_int \<lfloor>x\<rfloor>"
    by (rule rnd_of_int)
  then have "rnd x = x" by (simp only: e)
  with True show ?thesis by (simp only: if_True simp_thms)
next
  case False
  then show ?thesis by (simp only: rnd_def if_False)
qed

lemma overflow_code [code]:
  "overflow y =
     (if \<bar>y\<bar> < 9007199254740992 then Fin y
      else if 2 powi 1024 \<le> y then PosInf
      else if y \<le> - (2 powi 1024) then NegInf
      else Fin y)"
proof -
  have "(9007199254740992::real) < 2 powi 1024"
    by simp
  then show ?thesis
    by (auto simp: overflow_def)
qed

lemma rnd_small_int [simp]:
  assumes "of_int \<lfloor>x\<rfloor> = x" and "\<bar>x\<bar> < 9007199254740992"
  shows "rnd x = x"
  using assms by (subst rnd_code) (simp only: simp_thms if_True)

lemma fl_small_int [simp]:
  assumes "of_int \<lfloor>x\<rfloor> = x" and "\<bar>x\<bar> < 9007199254740992"
  shows "fl x = Fin x"
  using assms by (simp add: fl_def overflow_code del: of_int_floor_cancel)

lemma overflow_nonneg: "0 \<le> y \<Longrightarrow> nonneg_num (overflow y)"
proof -
  assume y: "0 \<le> y"
  have "(0::real) < 2 powi 1024"
    by (rule zero_less_power_int) simp
  with y show ?thesis
    by (simp add: overflow_def)
qed

lemma fl_nonneg: "0 \<le> x \<Longrightarrow> nonneg_num (fl x)"
  by (simp add: fl_def overflow_nonneg rnd_nonneg)

section \<open>Store operations in a world without failures\<close>

lemma pop_fields [simp]:
  "Buses (pop w) = Buses w" "Polylines (pop w) = Polylines w" "Routes (pop w) = Routes w"
  "busHashes (pop w) = busHashes w" "speedLists (pop w) = speedLists w"
  "routeHashes (pop w) = routeHashes w" "io (pop w) = io w" "emitted (pop w) = emitted w"
  by (simp_all add: pop_def)

lemma healthy_not_failing: "healthy w \<Longrightarrow> \<not> failing w"
  by (cases "faults w") (auto simp: healthy_def failing_def)

lemma healthy_pop: "healthy w \<Longrightarrow> healthy (pop w)"
  by (cases "faults w") (auto simp: healthy_def pop_def)

lemma healthy_upd [simp]:
  "healthy (w\<lparr>busHashes := bh\<rparr>) = healthy w"
  "healthy (w\<lparr>speedLists := sl\<rparr>) = healthy w"
  "healthy (w\<lparr>routeHashes := rh\<rparr>) = healthy w"
  "healthy (w\<lparr>emitted := em\<rparr>) = healthy w"
  by (simp_all add: healthy_def)

section \<open>Properties of computeAverageSpeed\<close>

lemma filter_finite_nonneg:
  "filter finite_nonneg (map Number_text ring) = map Fin (valid_speeds ring)"
proof (induction ring)
  case Nil
  show ?case by (simp add: valid_speeds_def)
next
  case (Cons t ring)
  show ?case
  proof (cases "Number_text t")
    case (Fin r)
    with Cons show ?thesis
      by (simp add: valid_speeds_def)
  qed (use Cons in \<open>simp_all add: valid_speeds_def\<close>)
qed

lemma valid_speeds_nonneg: "\<forall>x \<in> set (valid_speeds ring). 0 \<le> x"
  by (auto simp: valid_speeds_def split: jsnum.splits if_splits)

lemma foldl_js_add: "foldl js_add acc (map Fin xs) = double_sum acc xs"
  by (induction xs arbitrary: acc) simp_all

lemma js_add_nonneg:
  assumes "nonneg_num a" and "0 \<le> b"
  shows "nonneg_num (js_add a (Fin b))"
  using assms by (cases a) (simp_all add: fl_nonneg)

lemma double_sum_nonneg:
  assumes "nonneg_num acc" and "\<forall>x \<in> set xs. 0 \<le> x"
  shows "nonneg_num (double_sum acc xs)"
  using assms by (induction xs arbitrary: acc) (simp_all add: js_add_nonneg)

lemma js_div_nonneg:
  assumes "nonneg_num a" and "0 < b"
  shows "nonneg_num (js_div a (Fin b))"
  using assms by (cases a) (simp_all add: fl_nonneg)

lemma js_mul_nonneg:
  assumes "nonneg_num a" and "0 < b"
  shows "nonneg_num (js_mul a (Fin b))"
  using assms by (cases a) (simp_all add: fl_nonneg)

lemma js_round_nonneg:
  assumes "nonneg_num a"
  shows "nonneg_num (js_round a)"
  using assms by (cases a) (simp_all add: Math_round_def)

lemma double_round1_nonneg:
  assumes "nonneg_num a"
  shows "nonneg_num (double_round1 a)"
  unfolding double_round1_def
  by (intro js_div_nonneg js_round_nonneg js_mul_nonneg assms) simp_all

lemma double_mean_nonneg:
  assumes "xs \<noteq> []" and "\<forall>x \<in> set xs. 0 \<le> x"
  shows "nonneg_num (double_mean xs)"
  unfolding double_mean_def
  using assms by (intro js_div_nonneg double_sum_nonneg) simp_all

lemma rnd_huge: "rnd huge = huge"
  by (rule rnd_exact [of _ 1 1023]) (simp_all add: huge_def)

lemma rnd_twice_huge: "rnd (huge + huge) = 2 powi 1024"
proof -
  have h: "huge + huge = 2 powi 1024"
    by (simp add: huge_def)
  show ?thesis
    unfolding h by (rule rnd_exact [of _ 1 1024]) simp_all
qed

lemma huge_pos: "0 < huge"
  unfolding huge_def by (rule zero_less_power_int) simp

lemma huge_less: "huge < 2 powi 1024"
  unfolding huge_def by (rule power_int_strict_increasing) simp_all

lemma huge_of_int: "huge = of_int (2 ^ 1023)"
  by (simp add: huge_def)

text \<open>
  Claim C6, in the arithmetic of the code. For every speed ring, \<open>computeAverageSpeed\<close>
  returns \<open>Math.round(mean * 10) / 10\<close>, where \<open>mean\<close> is the sum of the ring's finite
  non-negative entries, added in ring order starting from 0, divided by their number,
  every operation giving the double nearest to its exact result and \<open>Infinity\<close> beyond
  the largest double; it returns 0 when the ring has no such entry. The result is never
  NaN and never negative. The ring holding 0, 90, 60 yields 50; the ring holding the
  texts \<open>0.1\<close> and \<open>4.6\<close> yields 2.3, and the ring holding \<open>0.35\<close> yields 0.4.
\<close>

theorem computeAverageSpeed_rounded_mean:
  "computeAverageSpeed ring =
     (if valid_speeds ring = [] then Fin 0 else double_round1 (double_mean (valid_speeds ring)))
   \<and> nonneg_num (computeAverageSpeed ring)
   \<and> computeAverageSpeed [] = Fin 0
   \<and> computeAverageSpeed [StringOf (JNum (Fin 0)), StringOf (JNum (Fin 90)), StringOf (JNum (Fin 60))] = Fin 50"
proof (intro conjI)
  show eq: "computeAverageSpeed ring =
     (if valid_speeds ring = [] then Fin 0 else double_round1 (double_mean (valid_speeds ring)))"
    by (simp add: computeAverageSpeed_def filter_finite_nonneg foldl_js_add Let_def
        double_round1_def double_mean_def)
  show "nonneg_num (computeAverageSpeed ring)"
  proof (cases "valid_speeds ring = []")
    case True
    with eq show ?thesis by simp
  next
    case False
    then have "nonneg_num (double_round1 (double_mean (valid_speeds ring)))"
      by (intro double_round1_nonneg double_mean_nonneg valid_speeds_nonneg)
    with eq False show ?thesis by simp
  qed
  show "computeAverageSpeed [] = Fin 0"
    by (simp add: computeAverageSpeed_def)
  show "computeAverageSpeed [StringOf (JNum (Fin 0)), StringOf (JNum (Fin 90)), StringOf (JNum (Fin 60))] = Fin 50"
    by code_simp
qed

theorem computeAverageSpeed_rounded_mean_witness:
  "valid_speeds [StringOf (JNum (Fin 30)), StringOf (JNum NaN), StringOf (JNum (Fin (- 5))), StringOf (JNum (Fin 25))]
     = [30, 25]
   \<and> computeAverageSpeed [StringOf (JNum (Fin 30)), StringOf (JNum NaN), StringOf (JNum (Fin (- 5))), StringOf (JNum (Fin 25))]
     = double_round1 (double_mean [30, 25])
   \<and> double_round1 (double_mean [30, 25]) = Fin (275 / 10)
   \<and> computeAverageSpeed [StringOf (JNum (Fin (1 / 10))), StringOf (JNum (Fin (46 / 10)))] = parsed (Fin (23 / 10))
   \<and> computeAverageSpeed [StringOf (JNum (Fin (35 / 100)))] = parsed (Fin (4 / 10))"
proof -
  let ?ring = "[StringOf (JNum (Fin 30)), StringOf (JNum NaN), StringOf (JNum (Fin (- 5))), StringOf (JNum (Fin 25))]"
  have v: "valid_speeds ?ring = [30, 25]"
    by (simp add: valid_speeds_def)
  have r: "double_round1 (double_mean [30, 25]) = Fin (275 / 10)"
    by code_simp
  have d1: "computeAverageSpeed [StringOf (JNum (Fin (1 / 10))), StringOf (JNum (Fin (46 / 10)))] = parsed (Fin (23 / 10))"
    by code_simp
  have d2: "computeAverageSpeed [StringOf (JNum (Fin (35 / 100)))] = parsed (Fin (4 / 10))"
    by code_simp
  from computeAverageSpeed_rounded_mean [of ?ring] v r d1 d2 show ?thesis
    by simp
qed

text \<open>
  Claim C6 as stated fails where the sum leaves the range of the doubles: a ring
  holding twice the speed \<open>2^1023\<close> has the arithmetic mean \<open>2^1023\<close>, which rounded to
  one decimal place is \<open>2^1023\<close>; \<open>computeAverageSpeed\<close> returns \<open>Infinity\<close>.
\<close>

theorem sum_of_speeds_overflows:
  "valid_speeds [StringOf (JNum (Fin huge)), StringOf (JNum (Fin huge))] = [huge, huge]
   \<and> round1 (mean [huge, huge]) = huge
   \<and> computeAverageSpeed [StringOf (JNum (Fin huge)), StringOf (JNum (Fin huge))] = PosInf"
proof (intro conjI)
  have p: "fl huge = Fin huge"
    using huge_pos huge_less by (simp add: fl_def overflow_def rnd_huge)
  show "valid_speeds [StringOf (JNum (Fin huge)), StringOf (JNum (Fin huge))] = [huge, huge]"
    using huge_pos p by (simp add: valid_speeds_def)
  have "round (huge * 10) = 2 ^ 1023 * 10"
    unfolding huge_of_int by (metis of_int_mult of_int_numeral round_of_int)
  then have "real_of_int (round (huge * 10)) = huge * 10"
    by (simp add: huge_of_int)
  then show "round1 (mean [huge, huge]) = huge"
    by (simp add: round1_def mean_def)
  have a: "fl (0 + huge) = Fin huge"
    using p by simp
  have b: "fl (huge + huge) = PosInf"
    by (simp only: fl_def rnd_twice_huge overflow_def order_refl if_True)
  show "computeAverageSpeed [StringOf (JNum (Fin huge)), StringOf (JNum (Fin huge))] = PosInf"
    using huge_pos a b p by (simp add: computeAverageSpeed_def del: add_0)
qed

section \<open>Rejected ingest requests\<close>

lemma finite_number_isFinite:
  assumes "finite_number v"
  shows "isFinite (Number_js v)"
  using assms by (cases v) simp_all

text \<open>
  Claim C7, as the code has it. Ingest answers 400 exactly when \<open>busId\<close> is missing
  (absent or empty) or \<open>Number(lat)\<close> or \<open>Number(lng)\<close> is not finite; the check is made
  on the coerced values, so \<open>null\<close>, a boolean, the empty string and the text of a
  finite number pass it, while a request whose \<open>lat\<close> and \<open>lng\<close> are finite numbers
  always does. The lookup of the Bus comes after that check: ingest answers 404 exactly
  when the request passed the check, the lookup itself did not fail, and it found no
  Bus. In the 404 case the cache (vehicle hashes, speed rings, route hashes) is as
  before and nothing was emitted.
\<close>

theorem updateBusLocation_400_404:
  assumes "updateBusLocation decode nearest now req w = (r, w')"
  shows "(code r = 400 \<longleftrightarrow>
            falsy (busId req) \<or> \<not> isFinite (Number_js (lat req)) \<or> \<not> isFinite (Number_js (lng req)))
       \<and> (code r = 404 \<longleftrightarrow>
            \<not> (falsy (busId req) \<or> \<not> isFinite (Number_js (lat req)) \<or> \<not> isFinite (Number_js (lng req)))
            \<and> \<not> failing w \<and> Buses w (id_text (busId req)) = None)
       \<and> (code r = 404 \<longrightarrow>
            busHashes w' = busHashes w \<and> speedLists w' = speedLists w
            \<and> routeHashes w' = routeHashes w \<and> emitted w' = emitted w)
       \<and> (\<not> falsy (busId req) \<and> finite_number (lat req) \<and> finite_number (lng req) \<longrightarrow> code r \<noteq> 400)"
proof -
  have main: "(code r = 400 \<longleftrightarrow>
            falsy (busId req) \<or> \<not> isFinite (Number_js (lat req)) \<or> \<not> isFinite (Number_js (lng req)))
       \<and> (code r = 404 \<longleftrightarrow>
            \<not> (falsy (busId req) \<or> \<not> isFinite (Number_js (lat req)) \<or> \<not> isFinite (Number_js (lng req)))
            \<and> \<not> failing w \<and> Buses w (id_text (busId req)) = None)
       \<and> (code r = 404 \<longrightarrow>
            busHashes w' = busHashes w \<and> speedLists w' = speedLists w
            \<and> routeHashes w' = routeHashes w \<and> emitted w' = emitted w)"
  proof (cases "falsy (busId req) \<or> \<not> isFinite (Number_js (lat req)) \<or> \<not> isFinite (Number_js (lng req))")
    case True
    then have "r = \<lparr>code = 400, body = Failure ''busId, lat, lng are required''\<rparr>"
      using assms by (auto simp: updateBusLocation_def updateBusLocation_try_def ret_def)
    with True show ?thesis by simp
  next
    case valid: False
    show ?thesis
    proof (cases "failing w")
      case True
      with valid have "r = \<lparr>code = 500, body = Failure ''Server error''\<rparr>"
        using assms
        by (auto simp: updateBusLocation_def updateBusLocation_try_def await_def Bus_findOne_def store_op_def)
      with valid True show ?thesis by simp
    next
      case up: False
      show ?thesis
      proof (cases "Buses w (id_text (busId req))")
        case None
        with valid up have "r = \<lparr>code = 404, body = Failure ''Bus not found''\<rparr> \<and> w' = pop w"
          using assms
          by (auto simp: updateBusLocation_def updateBusLocation_try_def await_def Bus_findOne_def
              store_op_def ret_def)
        with valid up None show ?thesis by simp
      next
        case (Some doc)
        with valid up have "code r = 200 \<or> code r = 500"
          using assms
          by (auto simp: updateBusLocation_def updateBusLocation_try_def await_def Bus_findOne_def
              store_op_def ret_def Let_def emit_def lift_def
              split: prod.splits sum.splits option.splits if_splits)
        with valid up Some show ?thesis by auto
      qed
    qed
  qed
  have "finite_number (lat req) \<longrightarrow> isFinite (Number_js (lat req))"
    and "finite_number (lng req) \<longrightarrow> isFinite (Number_js (lng req))"
    by (simp_all add: finite_number_isFinite)
  with main show ?thesis
    by blast
qed

theorem updateBusLocation_400_404_witness:
  "code (fst (updateBusLocation decode0 east_matcher 0 unknown_report world0)) = 404
   \<and> busHashes (snd (updateBusLocation decode0 east_matcher 0 unknown_report world0)) = busHashes world0
   \<and> speedLists (snd (updateBusLocation decode0 east_matcher 0 unknown_report world0)) = speedLists world0
   \<and> routeHashes (snd (updateBusLocation decode0 east_matcher 0 unknown_report world0)) = routeHashes world0
   \<and> emitted (snd (updateBusLocation decode0 east_matcher 0 unknown_report world0)) = emitted world0
   \<and> Buses world0 (id_text (busId unknown_report)) = None"
proof -
  let ?run = "updateBusLocation decode0 east_matcher 0 unknown_report world0"
  have run: "?run = (fst ?run, snd ?run)"
    by simp
  have notfound: "code (fst ?run) = 404"
    by code_simp
  from updateBusLocation_400_404 [OF run] notfound show ?thesis
    by blast
qed

text \<open>
  Claim C7 as stated fails: a report of \<open>V1\<close> whose \<open>lat\<close> and \<open>lng\<close> are \<open>null\<close>, which
  are not finite numbers, is not answered 400. \<open>Number(null)\<close> is 0: the report is
  answered 200 and the texts \<open>null\<close> are stored as the last position of the bus.
\<close>

theorem null_coordinates_are_accepted:
  "\<not> falsy (busId null_report)
   \<and> \<not> finite_number (lat null_report) \<and> \<not> finite_number (lng null_report)
   \<and> code (fst (updateBusLocation decode0 east_matcher 1000 null_report world0)) = 200
   \<and> busHashes (snd (updateBusLocation decode0 east_matcher 1000 null_report world0)) ''bus:V1''
       = Some \<lparr>lastLat = Some (StringOf Null), lastLng = Some (StringOf Null),
               lastUpdated = Some 1000, routeId = Some ''R1''\<rparr>"
  by code_simp

section \<open>The ETA rule\<close>

lemma map_throwing_list_all2:
  "map_throwing f xs = Inr ys \<longleftrightarrow> list_all2 (\<lambda>x y. f x = Inr y) xs ys"
proof (induction xs arbitrary: ys)
  case Nil
  show ?case by auto
next
  case (Cons x xs)
  show ?case
  proof (cases "f x")
    case (Inl e)
    then show ?thesis by (auto simp: list_all2_Cons1)
  next
    case fx: (Inr y)
    show ?thesis
    proof (cases "map_throwing f xs")
      case (Inl e)
      with fx Cons.IH show ?thesis by (auto simp: list_all2_Cons1)
    next
      case (Inr zs)
      with fx Cons.IH show ?thesis by (auto simp: list_all2_Cons1)
    qed
  qed
qed

lemma map_throwing_Inr_iff:
  "map_throwing f xs = Inr ys \<longleftrightarrow>
     length ys = length xs \<and> (\<forall>i < length xs. f (xs ! i) = Inr (ys ! i))"
  by (auto simp: map_throwing_list_all2 list_all2_conv_all_nth)






lemma divide_kmh_mono:
  assumes "a \<le> b"
  shows "divide_kmh a (max_1 avg) \<le> divide_kmh b (max_1 avg)"
proof (cases "parsed avg")
  case (Fin x)
  have "a / max 1 x \<le> b / max 1 x"
    using assms by (intro divide_right_mono) simp_all
  then show ?thesis
    using Fin by (simp add: max_1_def rnd_mono)
qed (use assms in \<open>simp_all add: max_1_def rnd_mono\<close>)

lemma etaStop_mono:
  assumes "nearest cs (Fin (longitude si), Fin (latitude si)) = Some p"
    and "nearest cs (Fin (longitude sj), Fin (latitude sj)) = Some q"
    and "location_or_0 p \<le> location_or_0 q"
    and "etaStop nearest cs b (max_1 avg) si = Inr ei"
    and "etaStop nearest cs b (max_1 avg) sj = Inr ej"
  shows "etaMinutes ei \<le> etaMinutes ej"
proof -
  let ?rem = "\<lambda>d. if rnd (d - b) < 0 then 0 else rnd (d - b)"
  have ei: "etaMinutes ei = Math_round (rnd (divide_kmh (?rem (location_or_0 p)) (max_1 avg) * 60))"
    using assms(1,4) by (auto simp: etaStop_def Let_def)
  have ej: "etaMinutes ej = Math_round (rnd (divide_kmh (?rem (location_or_0 q)) (max_1 avg) * 60))"
    using assms(2,5) by (auto simp: etaStop_def Let_def)
  have "rnd (location_or_0 p - b) \<le> rnd (location_or_0 q - b)"
    using assms(3) by (intro rnd_mono) simp
  then have "?rem (location_or_0 p) \<le> ?rem (location_or_0 q)"
    by simp
  then have "divide_kmh (?rem (location_or_0 p)) (max_1 avg) \<le> divide_kmh (?rem (location_or_0 q)) (max_1 avg)"
    by (rule divide_kmh_mono)
  then have "divide_kmh (?rem (location_or_0 p)) (max_1 avg) * 60
               \<le> divide_kmh (?rem (location_or_0 q)) (max_1 avg) * 60"
    by simp
  then have "rnd (divide_kmh (?rem (location_or_0 p)) (max_1 avg) * 60)
               \<le> rnd (divide_kmh (?rem (location_or_0 q)) (max_1 avg) * 60)"
    by (rule rnd_mono)
  then show ?thesis
    unfolding ei ej Math_round_def by (intro floor_mono) simp
qed

lemma computeSnappedAndEtas_Inr:
  assumes "computeSnappedAndEtas nearest (Some cs) stops bus avg = Inr (loc, etas)" and "cs \<noteq> []"
  shows "\<exists>snapped. nearest cs (loc_lng bus, loc_lat bus) = Some snapped
           \<and> loc = Some \<lparr>loc_lat = Fin (snap_lat snapped), loc_lng = Fin (snap_lng snapped)\<rparr>
           \<and> map_throwing (etaStop nearest cs (location_or_0 snapped) (max_1 avg))
                (case stops of None \<Rightarrow> [] | Some ss \<Rightarrow> ss) = Inr etas"
  using assms
  by (auto simp: computeSnappedAndEtas_def Let_def split: option.splits sum.splits)



text \<open>
  Claim C9. In one result of \<open>computeSnappedAndEtas\<close>, for any two stops of the list
  whose matched offsets on the line satisfy \<open>offset(Si) \<le> offset(Sj)\<close>, whatever the
  vehicle's offset and the average speed, the \<open>etaMinutes\<close> of \<open>Si\<close> is at most that of
  \<open>Sj\<close>: rounding to the nearest double is monotone.
\<close>

theorem eta_monotone_along_route:
  assumes "computeSnappedAndEtas nearest (Some cs) (Some ss) bus avg = Inr (loc, etas)"
    and "cs \<noteq> []"
    and "i < length ss" and "j < length ss"
    and "nearest cs (Fin (longitude (ss ! i)), Fin (latitude (ss ! i))) = Some p"
    and "nearest cs (Fin (longitude (ss ! j)), Fin (latitude (ss ! j))) = Some q"
    and "location_or_0 p \<le> location_or_0 q"
  shows "length etas = length ss \<and> etaMinutes (etas ! i) \<le> etaMinutes (etas ! j)"
proof -
  from computeSnappedAndEtas_Inr [OF assms(1,2)] obtain snapped where
    m: "map_throwing (etaStop nearest cs (location_or_0 snapped) (max_1 avg)) ss = Inr etas"
    by auto
  then have len: "length etas = length ss"
    and each: "\<forall>k < length ss. etaStop nearest cs (location_or_0 snapped) (max_1 avg) (ss ! k) = Inr (etas ! k)"
    by (simp_all add: map_throwing_Inr_iff)
  from each assms(3) have ei: "etaStop nearest cs (location_or_0 snapped) (max_1 avg) (ss ! i) = Inr (etas ! i)"
    by blast
  from each assms(4) have ej: "etaStop nearest cs (location_or_0 snapped) (max_1 avg) (ss ! j) = Inr (etas ! j)"
    by blast
  from etaStop_mono [OF assms(5,6,7) ei ej] len show ?thesis
    by simp
qed

theorem eta_monotone_along_route_witness:
  "computeSnappedAndEtas east_matcher (Some line0) (Some [stop1, stop2]) at5 (Fin 40) =
     Inr (Some \<lparr>loc_lat = Fin 0, loc_lng = Fin 5\<rparr>,
          [\<lparr>eta_stopId = ''S1'', eta_name = ''Connaught Place'', etaMinutes = 0\<rparr>,
           \<lparr>eta_stopId = ''S2'', eta_name = ''Terminus'', etaMinutes = 5\<rparr>])
   \<and> etaMinutes ([\<lparr>eta_stopId = ''S1'', eta_name = ''Connaught Place'', etaMinutes = 0\<rparr>,
                   \<lparr>eta_stopId = ''S2'', eta_name = ''Terminus'', etaMinutes = 5\<rparr>] ! 0)
       \<le> etaMinutes ([\<lparr>eta_stopId = ''S1'', eta_name = ''Connaught Place'', etaMinutes = 0\<rparr>,
                      \<lparr>eta_stopId = ''S2'', eta_name = ''Terminus'', etaMinutes = 5\<rparr>] ! 1)"
proof -
  have run: "computeSnappedAndEtas east_matcher (Some line0) (Some [stop1, stop2]) at5 (Fin 40) =
     Inr (Some \<lparr>loc_lat = Fin 0, loc_lng = Fin 5\<rparr>,
          [\<lparr>eta_stopId = ''S1'', eta_name = ''Connaught Place'', etaMinutes = 0\<rparr>,
           \<lparr>eta_stopId = ''S2'', eta_name = ''Terminus'', etaMinutes = 5\<rparr>])"
    by code_simp
  have p: "east_matcher line0 (Fin (longitude ([stop1, stop2] ! 0)), Fin (latitude ([stop1, stop2] ! 0)))
             = Some \<lparr>snap_lng = 2, snap_lat = 0, location = Some 2\<rparr>"
    by (simp add: line0_def stop1_def)
  have q: "east_matcher line0 (Fin (longitude ([stop1, stop2] ! 1)), Fin (latitude ([stop1, stop2] ! 1)))
             = Some \<lparr>snap_lng = 8, snap_lat = 0, location = Some 8\<rparr>"
    by (simp add: line0_def stop2_def)
  have le: "location_or_0 \<lparr>snap_lng = 2, snap_lat = 0, location = Some 2\<rparr>
              \<le> location_or_0 \<lparr>snap_lng = 8, snap_lat = 0, location = Some 8\<rparr>"
    by (simp add: location_or_0_def)
  have "line0 \<noteq> []" "(0::nat) < length [stop1, stop2]" "(1::nat) < length [stop1, stop2]"
    by (simp_all add: line0_def)
  from eta_monotone_along_route [OF run this p q le] run show ?thesis
    by simp
qed

section \<open>Stages of the ingest handler\<close>

lemma store_op_healthy:
  "healthy w \<Longrightarrow> store_op f w = (Inr (fst (f (pop w))), snd (f (pop w)))"
  by (simp add: store_op_def healthy_not_failing split: prod.splits)

lemma await_assoc: "await (await m f) g = await m (\<lambda>x. await (f x) g)"
  by (rule ext) (simp add: await_def split: prod.splits sum.splits)

lemma await_ret: "await (ret x) f = f x"
  by (rule ext) (simp add: await_def ret_def)

lemma await_Inr:
  assumes "await m f w = (Inr r, w')"
  obtains x w1 where "m w = (Inr x, w1)" and "f x w1 = (Inr r, w')"
proof -
  obtain r1 w1 where m: "m w = (r1, w1)"
    by (cases "m w")
  show thesis
  proof (cases r1)
    case (Inl e)
    with m assms show ?thesis by (simp add: await_def)
  next
    case (Inr x)
    with m assms have "f x w1 = (Inr r, w')" by (simp add: await_def)
    with m Inr that show ?thesis by blast
  qed
qed

lemma updateBusLocation_try_stages:
  "updateBusLocation_try decode nearest now req =
     (if falsy (busId req) \<or> \<not> isFinite (Number_js (lat req)) \<or> \<not> isFinite (Number_js (lng req))
      then ret \<lparr>code = 400, body = Failure ''busId, lat, lng are required''\<rparr>
      else
        await (Bus_findOne (id_text (busId req))) (\<lambda>busDoc.
          case busDoc of
            None \<Rightarrow> ret \<lparr>code = 404, body = Failure ''Bus not found''\<rparr>
          | Some doc \<Rightarrow>
              await (hset_bus (''bus:'' @ id_text (busId req)) (StringOf (lat req)) (StringOf (lng req))
                       now (doc_routeId doc)) (\<lambda>_.
              await (if isFinite (Number_js (speed req))
                     then await (lpush (''bus:'' @ id_text (busId req) @ '':speeds'') (StringOf (speed req)))
                            (\<lambda>_. ltrim (''bus:'' @ id_text (busId req) @ '':speeds'') 0 2)
                     else ret ()) (\<lambda>_.
              await (compute_payload decode nearest now req (doc_routeId doc)) (\<lambda>p.
              await (emit (doc_routeId doc) p) (\<lambda>_.
                ret \<lparr>code = 200, body = Success p\<rparr>))))))"
  unfolding updateBusLocation_try_def compute_payload_def Let_def await_assoc await_ret case_prod_beta
  by (rule refl)

lemma snd_updateBusLocation:
  "snd (updateBusLocation decode nearest now req w) = snd (updateBusLocation_try decode nearest now req w)"
  by (simp add: updateBusLocation_def split: prod.splits sum.splits)

subsection \<open>Actions that leave the rings and the vehicle hashes alone\<close>

lemma framesD:
  assumes "frames m" and "healthy w" and "m w = (r, w')"
  shows "healthy w'" and "speedLists w' = speedLists w" and "busHashes w' = busHashes w"
    and "Buses w' = Buses w"
  using assms unfolding frames_def by blast+

lemma frames_ret: "frames (ret x)"
  by (simp add: frames_def ret_def)

lemma frames_lift: "frames (lift r)"
  by (simp add: frames_def lift_def)

lemma frames_emit: "frames (emit rid p)"
  by (auto simp: frames_def emit_def emitBusUpdate_def Let_def)

lemma frames_await:
  assumes "frames m" and "\<And>x. frames (f x)"
  shows "frames (await m f)"
  unfolding frames_def
proof (intro allI impI)
  fix w r w'
  assume h: "healthy w" and run: "await m f w = (r, w')"
  obtain r1 w1 where m: "m w = (r1, w1)"
    by (cases "m w")
  note w1 = framesD [OF assms(1) h m]
  show "healthy w' \<and> speedLists w' = speedLists w \<and> busHashes w' = busHashes w \<and> Buses w' = Buses w"
  proof (cases r1)
    case (Inl e)
    with m run have "w' = w1" by (simp add: await_def)
    with w1 show ?thesis by simp
  next
    case (Inr x)
    with m run have fx: "f x w1 = (r, w')" by (simp add: await_def)
    from framesD [OF assms(2) w1(1) fx] w1 show ?thesis by simp
  qed
qed

lemma frames_read: "frames (store_op (\<lambda>w. (g w, w)))"
  by (auto simp: frames_def store_op_healthy healthy_pop)

lemma frames_hset_route: "frames (hset_route k p s)"
  by (auto simp: frames_def hset_route_def store_op_healthy healthy_pop)

lemma frames_Promise_all:
  assumes "frames m1" and "frames m2"
  shows "frames (Promise_all m1 m2)"
  unfolding frames_def
proof (intro allI impI)
  fix w r w'
  assume h: "healthy w" and run: "Promise_all m1 m2 w = (r, w')"
  obtain r1 w1 where m1: "m1 w = (r1, w1)"
    by (cases "m1 w")
  obtain r2 w2 where m2: "m2 w1 = (r2, w2)"
    by (cases "m2 w1")
  note w1 = framesD [OF assms(1) h m1]
  note w2 = framesD [OF assms(2) w1(1) m2]
  from run m1 m2 have "w' = w2"
    unfolding Promise_all_def by (cases r1; cases r2) simp_all
  with w1 w2 show "healthy w' \<and> speedLists w' = speedLists w \<and> busHashes w' = busHashes w \<and> Buses w' = Buses w"
    by simp
qed

lemma frames_getRouteGeometryAndStops: "frames (getRouteGeometryAndStops decode rid)"
  unfolding getRouteGeometryAndStops_def Let_def hgetall_route_def Polyline_findOne_def Route_findById_def
  by (auto intro!: frames_await frames_read frames_ret frames_Promise_all frames_hset_route
      split: option.splits prod.splits)

lemma frames_compute_payload: "frames (compute_payload decode nearest now req rid)"
  unfolding compute_payload_def lrange_def
  by (auto intro!: frames_await frames_read frames_ret frames_lift
      frames_getRouteGeometryAndStops split: prod.splits)

lemma frames_respond:
  "frames (await (compute_payload decode nearest now req rid) (\<lambda>p.
           await (emit rid p) (\<lambda>_. ret \<lparr>code = 200, body = Success p\<rparr>)))"
  by (intro frames_await frames_compute_payload frames_emit frames_ret)

subsection \<open>Actions that leave the socket server alone\<close>

lemma quietD:
  assumes "quiet m" and "m w = (r, w')"
  shows "emitted w' = emitted w" and "io w' = io w"
  using assms unfolding quiet_def by blast+

lemma quiet_ret: "quiet (ret x)"
  by (simp add: quiet_def ret_def)

lemma quiet_lift: "quiet (lift r)"
  by (simp add: quiet_def lift_def)

lemma quiet_await:
  assumes "quiet m" and "\<And>x. quiet (f x)"
  shows "quiet (await m f)"
  unfolding quiet_def
proof (intro allI impI)
  fix w r w'
  assume run: "await m f w = (r, w')"
  obtain r1 w1 where m: "m w = (r1, w1)"
    by (cases "m w")
  note w1 = quietD [OF assms(1) m]
  show "emitted w' = emitted w \<and> io w' = io w"
  proof (cases r1)
    case (Inl e)
    with m run have "w' = w1" by (simp add: await_def)
    with w1 show ?thesis by simp
  next
    case (Inr x)
    with m run have fx: "f x w1 = (r, w')" by (simp add: await_def)
    from quietD [OF assms(2) fx] w1 show ?thesis by simp
  qed
qed

lemma quiet_store_op:
  assumes "\<And>v. emitted (snd (f v)) = emitted v \<and> io (snd (f v)) = io v"
  shows "quiet (store_op f)"
  unfolding quiet_def
proof (intro allI impI)
  fix w r w'
  assume run: "store_op f w = (r, w')"
  show "emitted w' = emitted w \<and> io w' = io w"
  proof (cases "failing w")
    case True
    with run show ?thesis by (auto simp: store_op_def)
  next
    case False
    with run have "w' = snd (f (pop w))"
      by (auto simp: store_op_def split: prod.splits)
    with assms [of "pop w"] show ?thesis by simp
  qed
qed

lemma quiet_Promise_all:
  assumes "quiet m1" and "quiet m2"
  shows "quiet (Promise_all m1 m2)"
  unfolding quiet_def
proof (intro allI impI)
  fix w r w'
  assume run: "Promise_all m1 m2 w = (r, w')"
  obtain r1 w1 where m1: "m1 w = (r1, w1)"
    by (cases "m1 w")
  obtain r2 w2 where m2: "m2 w1 = (r2, w2)"
    by (cases "m2 w1")
  note w1 = quietD [OF assms(1) m1]
  note w2 = quietD [OF assms(2) m2]
  from run m1 m2 have "w' = w2"
    unfolding Promise_all_def by (cases r1; cases r2) simp_all
  with w1 w2 show "emitted w' = emitted w \<and> io w' = io w"
    by simp
qed

lemma quiet_ops:
  "quiet (Bus_findOne k)" "quiet (Polyline_findOne k)" "quiet (Route_findById k)"
  "quiet (hset_bus k a b t rid)" "quiet (hset_route k p s)" "quiet (hgetall_route k)"
  "quiet (lpush k v)" "quiet (ltrim k i j)" "quiet (lrange k i j)"
  unfolding Bus_findOne_def Polyline_findOne_def Route_findById_def hset_bus_def hset_route_def
    hgetall_route_def lpush_def ltrim_def lrange_def
  by (rule quiet_store_op, simp)+

lemma quiet_getRouteGeometryAndStops: "quiet (getRouteGeometryAndStops decode rid)"
  unfolding getRouteGeometryAndStops_def Let_def
  by (auto intro!: quiet_await quiet_ops quiet_ret quiet_Promise_all
      split: option.splits prod.splits)

lemma quiet_compute_payload: "quiet (compute_payload decode nearest now req rid)"
  unfolding compute_payload_def
  by (auto intro!: quiet_await quiet_ops quiet_ret quiet_lift quiet_getRouteGeometryAndStops
      split: prod.splits)

lemma quiet_ring_update:
  "quiet (if c then await (lpush k v) (\<lambda>_. ltrim k i j) else ret ())"
  by (auto intro!: quiet_await quiet_ops quiet_ret)

section \<open>The speed ring\<close>

lemma await_store_op_healthy:
  "healthy w \<Longrightarrow> await (store_op f) k w = k (fst (f (pop w))) (snd (f (pop w)))"
  by (simp add: await_def store_op_healthy)

lemma take_append_take: "take n (xs @ take n ys) = take n (xs @ ys)"
  by (simp add: min_def)

lemma pushed_Cons:
  "pushed ((now, req) # calls) =
     (if isFinite (Number_js (speed req)) then pushed calls @ [StringOf (speed req)] else pushed calls)"
  by (simp add: pushed_def)

lemma ingest_accepted:
  assumes "healthy w"
    and "\<not> falsy (busId req)" and "isFinite (Number_js (lat req))" and "isFinite (Number_js (lng req))"
    and "Buses w (id_text (busId req)) = Some doc"
  shows "\<exists>v. updateBusLocation_try decode nearest now req w =
               await (compute_payload decode nearest now req (doc_routeId doc)) (\<lambda>p.
                 await (emit (doc_routeId doc) p) (\<lambda>_. ret \<lparr>code = 200, body = Success p\<rparr>)) v
           \<and> healthy v
           \<and> speedLists v =
               (if isFinite (Number_js (speed req))
                then (speedLists w)(''bus:'' @ id_text (busId req) @ '':speeds'' :=
                       take 3 (StringOf (speed req) # speedLists w (''bus:'' @ id_text (busId req) @ '':speeds'')))
                else speedLists w)
           \<and> busHashes v =
               (busHashes w)(''bus:'' @ id_text (busId req) \<mapsto>
                  \<lparr>lastLat = Some (StringOf (lat req)), lastLng = Some (StringOf (lng req)),
                   lastUpdated = Some now, routeId = Some (doc_routeId doc)\<rparr>)
           \<and> Buses v = Buses w"
proof -
  have "\<exists>v. updateBusLocation_try decode nearest now req w =
               await (compute_payload decode nearest now req (doc_routeId doc)) (\<lambda>p.
                 await (emit (doc_routeId doc) p) (\<lambda>_. ret \<lparr>code = 200, body = Success p\<rparr>)) v
           \<and> (healthy v
           \<and> speedLists v =
               (if isFinite (Number_js (speed req))
                then (speedLists w)(''bus:'' @ id_text (busId req) @ '':speeds'' :=
                       take 3 (StringOf (speed req) # speedLists w (''bus:'' @ id_text (busId req) @ '':speeds'')))
                else speedLists w)
           \<and> busHashes v =
               (busHashes w)(''bus:'' @ id_text (busId req) \<mapsto>
                  \<lparr>lastLat = Some (StringOf (lat req)), lastLng = Some (StringOf (lng req)),
                   lastUpdated = Some now, routeId = Some (doc_routeId doc)\<rparr>)
           \<and> Buses v = Buses w)"
  proof (cases "isFinite (Number_js (speed req))")
    case True
    show ?thesis
      using assms True
      apply (simp add: updateBusLocation_try_stages Bus_findOne_def hset_bus_def lpush_def ltrim_def
          await_store_op_healthy await_assoc healthy_pop)
      apply (rule exI, rule conjI, rule refl)
      apply (simp add: healthy_pop numeral_3_eq_3)
      done
  next
    case False
    show ?thesis
      using assms False
      apply (simp add: updateBusLocation_try_stages Bus_findOne_def hset_bus_def
          await_store_op_healthy await_ret healthy_pop)
      apply (rule exI, rule conjI, rule refl)
      apply (simp add: healthy_pop)
      done
  qed
  then show ?thesis by simp
qed

lemma respond_world:
  assumes "healthy v"
  shows "healthy (snd (await (compute_payload decode nearest now req rid) (\<lambda>p.
                 await (emit rid p) (\<lambda>_. ret \<lparr>code = 200, body = Success p\<rparr>)) v))"
    and "speedLists (snd (await (compute_payload decode nearest now req rid) (\<lambda>p.
                 await (emit rid p) (\<lambda>_. ret \<lparr>code = 200, body = Success p\<rparr>)) v)) = speedLists v"
    and "busHashes (snd (await (compute_payload decode nearest now req rid) (\<lambda>p.
                 await (emit rid p) (\<lambda>_. ret \<lparr>code = 200, body = Success p\<rparr>)) v)) = busHashes v"
    and "Buses (snd (await (compute_payload decode nearest now req rid) (\<lambda>p.
                 await (emit rid p) (\<lambda>_. ret \<lparr>code = 200, body = Success p\<rparr>)) v)) = Buses v"
  using framesD [OF frames_respond assms, OF prod.collapse [symmetric]] by simp_all

lemma ingest_step_accepted:
  assumes "healthy w"
    and "\<not> falsy (busId req)" and "isFinite (Number_js (lat req))" and "isFinite (Number_js (lng req))"
    and "Buses w (id_text (busId req)) = Some doc"
  shows "healthy (snd (updateBusLocation decode nearest now req w))"
    and "Buses (snd (updateBusLocation decode nearest now req w)) = Buses w"
    and "speedLists (snd (updateBusLocation decode nearest now req w)) =
           (if isFinite (Number_js (speed req))
            then (speedLists w)(''bus:'' @ id_text (busId req) @ '':speeds'' :=
                   take 3 (StringOf (speed req) # speedLists w (''bus:'' @ id_text (busId req) @ '':speeds'')))
            else speedLists w)"
    and "busHashes (snd (updateBusLocation decode nearest now req w)) =
           (busHashes w)(''bus:'' @ id_text (busId req) \<mapsto>
              \<lparr>lastLat = Some (StringOf (lat req)), lastLng = Some (StringOf (lng req)),
               lastUpdated = Some now, routeId = Some (doc_routeId doc)\<rparr>)"
proof -
  from ingest_accepted [OF assms, of decode nearest now]
  obtain v where
    v: "updateBusLocation_try decode nearest now req w =
             await (compute_payload decode nearest now req (doc_routeId doc)) (\<lambda>p.
               await (emit (doc_routeId doc) p) (\<lambda>_. ret \<lparr>code = 200, body = Success p\<rparr>)) v"
    and hv: "healthy v"
    and sv: "speedLists v =
             (if isFinite (Number_js (speed req))
              then (speedLists w)(''bus:'' @ id_text (busId req) @ '':speeds'' :=
                     take 3 (StringOf (speed req) # speedLists w (''bus:'' @ id_text (busId req) @ '':speeds'')))
              else speedLists w)"
    and bv: "busHashes v =
               (busHashes w)(''bus:'' @ id_text (busId req) \<mapsto>
                  \<lparr>lastLat = Some (StringOf (lat req)), lastLng = Some (StringOf (lng req)),
                   lastUpdated = Some now, routeId = Some (doc_routeId doc)\<rparr>)"
    and dv: "Buses v = Buses w"
    by blast
  note rw = respond_world [OF hv, of decode nearest now req "doc_routeId doc"]
  have snd_eq: "snd (updateBusLocation decode nearest now req w) =
          snd (await (compute_payload decode nearest now req (doc_routeId doc)) (\<lambda>p.
               await (emit (doc_routeId doc) p) (\<lambda>_. ret \<lparr>code = 200, body = Success p\<rparr>)) v)"
    by (simp only: snd_updateBusLocation v)
  show "healthy (snd (updateBusLocation decode nearest now req w))"
    using rw(1) by (simp only: snd_eq)
  show "Buses (snd (updateBusLocation decode nearest now req w)) = Buses w"
    using rw(4) dv by (simp only: snd_eq)
  show "speedLists (snd (updateBusLocation decode nearest now req w)) =
           (if isFinite (Number_js (speed req))
            then (speedLists w)(''bus:'' @ id_text (busId req) @ '':speeds'' :=
                   take 3 (StringOf (speed req) # speedLists w (''bus:'' @ id_text (busId req) @ '':speeds'')))
            else speedLists w)"
    using rw(2) sv by (simp only: snd_eq)
  show "busHashes (snd (updateBusLocation decode nearest now req w)) =
           (busHashes w)(''bus:'' @ id_text (busId req) \<mapsto>
              \<lparr>lastLat = Some (StringOf (lat req)), lastLng = Some (StringOf (lng req)),
               lastUpdated = Some now, routeId = Some (doc_routeId doc)\<rparr>)"
    using rw(3) bv by (simp only: snd_eq)
qed

lemma ingest_step:
  assumes "healthy w"
  shows "healthy (snd (updateBusLocation decode nearest now req w))
       \<and> (speedLists (snd (updateBusLocation decode nearest now req w)) = speedLists w
          \<or> isFinite (Number_js (speed req))
            \<and> speedLists (snd (updateBusLocation decode nearest now req w)) =
                (speedLists w)(''bus:'' @ id_text (busId req) @ '':speeds'' :=
                   take 3 (StringOf (speed req) # speedLists w (''bus:'' @ id_text (busId req) @ '':speeds''))))"
proof (cases "falsy (busId req) \<or> \<not> isFinite (Number_js (lat req)) \<or> \<not> isFinite (Number_js (lng req))")
  case True
  then have "updateBusLocation_try decode nearest now req w =
               (Inr \<lparr>code = 400, body = Failure ''busId, lat, lng are required''\<rparr>, w)"
    by (auto simp: updateBusLocation_try_def ret_def)
  with assms show ?thesis
    by (simp add: snd_updateBusLocation)
next
  case valid: False
  show ?thesis
  proof (cases "Buses w (id_text (busId req))")
    case None
    with valid assms have "updateBusLocation_try decode nearest now req w =
               (Inr \<lparr>code = 404, body = Failure ''Bus not found''\<rparr>, pop w)"
      by (simp add: updateBusLocation_try_stages Bus_findOne_def await_store_op_healthy ret_def)
    with assms show ?thesis
      by (simp add: snd_updateBusLocation healthy_pop)
  next
    case (Some doc)
    with valid have ok: "\<not> falsy (busId req)" "isFinite (Number_js (lat req))" "isFinite (Number_js (lng req))"
      by simp_all
    note st = ingest_step_accepted [OF assms ok Some, of decode nearest now]
    show ?thesis
      by (cases "isFinite (Number_js (speed req))") (simp_all only: st if_True if_False simp_thms)
  qed
qed

lemma ring_ok_push:
  assumes "ring_ok ring" and "isFinite (Number_js v)"
  shows "ring_ok (take 3 (StringOf v # ring))"
proof -
  have "set (take 3 (StringOf v # ring)) \<subseteq> insert (StringOf v) (set ring)"
    using set_take_subset [of 3 "StringOf v # ring"] by simp
  with assms show ?thesis
    by (auto simp: ring_ok_def list_all_iff)
qed

lemma ingest_all_rings:
  assumes "healthy w" and "\<forall>k. ring_ok (speedLists w k)"
  shows "\<forall>k. ring_ok (speedLists (ingest_all decode nearest calls w) k)"
  using assms
proof (induction calls arbitrary: w)
  case Nil
  then show ?case by simp
next
  case (Cons call calls)
  obtain now req where call: "call = (now, req)"
    by (cases call)
  let ?w = "snd (updateBusLocation decode nearest now req w)"
  from ingest_step [OF Cons.prems(1), of decode nearest now req]
  have h: "healthy ?w"
    and s: "speedLists ?w = speedLists w
          \<or> isFinite (Number_js (speed req))
            \<and> speedLists ?w =
                (speedLists w)(''bus:'' @ id_text (busId req) @ '':speeds'' :=
                   take 3 (StringOf (speed req) # speedLists w (''bus:'' @ id_text (busId req) @ '':speeds'')))"
    by simp_all
  have "\<forall>k. ring_ok (speedLists ?w k)"
    using s Cons.prems(2) by (auto simp: ring_ok_push simp del: take_Cons_numeral)
  with Cons.IH [OF h] call show ?case
    by simp
qed

lemma ingest_all_window:
  assumes "healthy w" and "Buses w bid = Some doc"
    and "\<forall>c \<in> set calls. accepted_for bid (snd c)"
    and "length (speedLists w (''bus:'' @ bid @ '':speeds'')) \<le> 3"
  shows "speedLists (ingest_all decode nearest calls w) (''bus:'' @ bid @ '':speeds'') =
           take 3 (pushed calls @ speedLists w (''bus:'' @ bid @ '':speeds''))"
  using assms
proof (induction calls arbitrary: w)
  case Nil
  then show ?case by (simp add: pushed_def)
next
  case (Cons call calls)
  obtain now req where call: "call = (now, req)"
    by (cases call)
  let ?key = "''bus:'' @ bid @ '':speeds''"
  let ?w = "snd (updateBusLocation decode nearest now req w)"
  from Cons.prems(3) call have acc: "accepted_for bid req"
    by simp
  then have ok: "\<not> falsy (busId req)" "isFinite (Number_js (lat req))" "isFinite (Number_js (lng req))"
    and idt: "id_text (busId req) = bid"
    by (simp_all add: accepted_for_def)
  from Cons.prems(2) idt have doc: "Buses w (id_text (busId req)) = Some doc"
    by simp
  note st = ingest_step_accepted [OF Cons.prems(1) ok doc, of decode nearest now]
  have ring: "speedLists ?w ?key =
                (if isFinite (Number_js (speed req)) then take 3 (StringOf (speed req) # speedLists w ?key)
                 else speedLists w ?key)"
    by (cases "isFinite (Number_js (speed req))") (simp_all only: st(3) idt fun_upd_same if_True if_False)
  have len: "length (speedLists ?w ?key) \<le> 3"
    using Cons.prems(4) unfolding ring by (cases "isFinite (Number_js (speed req))") simp_all
  have b: "Buses ?w bid = Some doc"
    using Cons.prems(2) by (simp only: st(2))
  have rest: "\<forall>c \<in> set calls. accepted_for bid (snd c)"
    using Cons.prems(3) by simp
  have "speedLists (ingest_all decode nearest calls ?w) ?key = take 3 (pushed calls @ speedLists ?w ?key)"
    using st(1) b rest len by (rule Cons.IH)
  also have "\<dots> = take 3 (pushed ((now, req) # calls) @ speedLists w ?key)"
  proof (cases "isFinite (Number_js (speed req))")
    case True
    then have "take 3 (pushed calls @ speedLists ?w ?key) =
                 take 3 (pushed calls @ take 3 (StringOf (speed req) # speedLists w ?key))"
      by (simp only: ring if_True)
    also have "\<dots> = take 3 (pushed calls @ StringOf (speed req) # speedLists w ?key)"
      by (rule take_append_take)
    finally show ?thesis
      using True by (simp only: pushed_Cons if_True append_assoc append_Cons append_Nil)
  next
    case False
    then show ?thesis
      by (simp only: ring pushed_Cons if_False)
  qed
  finally show ?case
    by (simp only: call ingest_all.simps)
qed

text \<open>
  Claim C1, as the code has it. In a world whose stores do not fail: (1) if every
  speed ring holds at most 3 entries, each printed from a reported speed whose
  \<open>Number\<close> is finite, then so it is after any sequence of ingest calls; (2) after a
  sequence of accepted calls for one known bus, its ring \<open>bus:<busId>:speeds\<close> is the
  first three of the finite speeds of these calls, newest first, followed by what the
  ring held before; (3) one accepted call pushes the speed when its \<open>Number\<close> is
  finite and leaves the ring as it was otherwise, and in both cases sets \<open>lastLat\<close>,
  \<open>lastLng\<close>, \<open>lastUpdated\<close> and \<open>routeId\<close>. Finite covers negative numbers: ingest
  does not check the sign.
\<close>

theorem speed_ring_after_ingest:
  assumes "healthy w"
  shows "((\<forall>k. ring_ok (speedLists w k)) \<longrightarrow>
            (\<forall>k. ring_ok (speedLists (ingest_all decode nearest calls w) k)))
       \<and> (Buses w bid = Some doc \<and> (\<forall>c \<in> set calls. accepted_for bid (snd c))
            \<and> length (speedLists w (''bus:'' @ bid @ '':speeds'')) \<le> 3 \<longrightarrow>
          speedLists (ingest_all decode nearest calls w) (''bus:'' @ bid @ '':speeds'') =
            take 3 (pushed calls @ speedLists w (''bus:'' @ bid @ '':speeds'')))
       \<and> (Buses w bid = Some doc \<and> accepted_for bid req \<longrightarrow>
          speedLists (snd (updateBusLocation decode nearest now req w)) (''bus:'' @ bid @ '':speeds'')
            = (if isFinite (Number_js (speed req))
               then take 3 (StringOf (speed req) # speedLists w (''bus:'' @ bid @ '':speeds''))
               else speedLists w (''bus:'' @ bid @ '':speeds''))
          \<and> busHashes (snd (updateBusLocation decode nearest now req w)) (''bus:'' @ bid)
            = Some \<lparr>lastLat = Some (StringOf (lat req)), lastLng = Some (StringOf (lng req)),
                    lastUpdated = Some now, routeId = Some (doc_routeId doc)\<rparr>)"
proof (intro conjI impI)
  assume "\<forall>k. ring_ok (speedLists w k)"
  with assms show "\<forall>k. ring_ok (speedLists (ingest_all decode nearest calls w) k)"
    by (rule ingest_all_rings)
next
  assume "Buses w bid = Some doc \<and> (\<forall>c \<in> set calls. accepted_for bid (snd c))
            \<and> length (speedLists w (''bus:'' @ bid @ '':speeds'')) \<le> 3"
  with assms show "speedLists (ingest_all decode nearest calls w) (''bus:'' @ bid @ '':speeds'') =
            take 3 (pushed calls @ speedLists w (''bus:'' @ bid @ '':speeds''))"
    by (intro ingest_all_window) simp_all
next
  assume a: "Buses w bid = Some doc \<and> accepted_for bid req"
  then have ok: "\<not> falsy (busId req)" "isFinite (Number_js (lat req))" "isFinite (Number_js (lng req))"
    and idt: "id_text (busId req) = bid"
    by (simp_all add: accepted_for_def)
  from a idt have doc: "Buses w (id_text (busId req)) = Some doc"
    by simp
  note st = ingest_step_accepted [OF assms ok doc, of decode nearest now]
  show "speedLists (snd (updateBusLocation decode nearest now req w)) (''bus:'' @ bid @ '':speeds'')
            = (if isFinite (Number_js (speed req))
               then take 3 (StringOf (speed req) # speedLists w (''bus:'' @ bid @ '':speeds''))
               else speedLists w (''bus:'' @ bid @ '':speeds''))"
    by (cases "isFinite (Number_js (speed req))") (simp_all only: st(3) idt fun_upd_same if_True if_False)
  show "busHashes (snd (updateBusLocation decode nearest now req w)) (''bus:'' @ bid)
            = Some \<lparr>lastLat = Some (StringOf (lat req)), lastLng = Some (StringOf (lng req)),
                    lastUpdated = Some now, routeId = Some (doc_routeId doc)\<rparr>"
    by (simp only: st(4) idt fun_upd_same)
qed

theorem speed_ring_after_ingest_witness:
  "healthy world0
   \<and> ring_ok (speedLists (ingest_all decode0 east_matcher reports0 world0) ''bus:V1:speeds'')
   \<and> speedLists (ingest_all decode0 east_matcher reports0 world0) ''bus:V1:speeds''
       = [StringOf (JNum (Fin (- 5))), StringOf (JNum (Fin 0)), StringOf (JNum (Fin 90))]
   \<and> speedLists (snd (updateBusLocation decode0 east_matcher 6000 (report 6 Undefined) world0)) ''bus:V1:speeds''
       = []
   \<and> busHashes (snd (updateBusLocation decode0 east_matcher 6000 (report 6 Undefined) world0)) ''bus:V1''
       = Some \<lparr>lastLat = Some (StringOf (JNum (Fin 0))), lastLng = Some (StringOf (JNum (Fin 6))),
               lastUpdated = Some 6000, routeId = Some ''R1''\<rparr>"
proof -
  have h: "healthy world0"
    by (simp add: healthy_def world0_def)
  have r0: "\<forall>k. ring_ok (speedLists world0 k)"
    by (simp add: world0_def ring_ok_def)
  have b: "Buses world0 ''V1'' = Some \<lparr>doc_routeId = ''R1''\<rparr>"
    by (simp add: world0_def)
  have acc: "\<forall>c \<in> set reports0. accepted_for ''V1'' (snd c)"
    by (simp add: reports0_def report_def accepted_for_def)
  have a6: "accepted_for ''V1'' (report 6 Undefined)"
    by (simp add: report_def accepted_for_def)
  have len: "length (speedLists world0 (''bus:'' @ ''V1'' @ '':speeds'')) \<le> 3"
    by (simp add: world0_def)
  have e: "speedLists world0 ''bus:V1:speeds'' = []"
    by (simp add: world0_def)
  have p: "take 3 (pushed reports0) =
             [StringOf (JNum (Fin (- 5))), StringOf (JNum (Fin 0)), StringOf (JNum (Fin 90))]"
    by (simp add: pushed_def reports0_def report_def)
  note ring = speed_ring_after_ingest [OF h, of decode0 east_matcher reports0 "''V1''"
      "\<lparr>doc_routeId = ''R1''\<rparr>" "report 6 Undefined" 6000]
  from ring r0 have "\<forall>k. ring_ok (speedLists (ingest_all decode0 east_matcher reports0 world0) k)"
    by blast
  then have inv: "ring_ok (speedLists (ingest_all decode0 east_matcher reports0 world0) ''bus:V1:speeds'')"
    by blast
  from ring b acc len
  have "speedLists (ingest_all decode0 east_matcher reports0 world0) (''bus:'' @ ''V1'' @ '':speeds'') =
          take 3 (pushed reports0 @ speedLists world0 (''bus:'' @ ''V1'' @ '':speeds''))"
    by blast
  with e p have win: "speedLists (ingest_all decode0 east_matcher reports0 world0) ''bus:V1:speeds''
       = [StringOf (JNum (Fin (- 5))), StringOf (JNum (Fin 0)), StringOf (JNum (Fin 90))]"
    by simp
  from ring b a6
  have "speedLists (snd (updateBusLocation decode0 east_matcher 6000 (report 6 Undefined) world0))
            (''bus:'' @ ''V1'' @ '':speeds'')
          = (if isFinite (Number_js (speed (report 6 Undefined)))
             then take 3 (StringOf (speed (report 6 Undefined)) # speedLists world0 (''bus:'' @ ''V1'' @ '':speeds''))
             else speedLists world0 (''bus:'' @ ''V1'' @ '':speeds''))
        \<and> busHashes (snd (updateBusLocation decode0 east_matcher 6000 (report 6 Undefined) world0))
            (''bus:'' @ ''V1'')
          = Some \<lparr>lastLat = Some (StringOf (lat (report 6 Undefined))),
                  lastLng = Some (StringOf (lng (report 6 Undefined))),
                  lastUpdated = Some 6000, routeId = Some (doc_routeId \<lparr>doc_routeId = ''R1''\<rparr>)\<rparr>"
    by blast
  with e have step:
    "speedLists (snd (updateBusLocation decode0 east_matcher 6000 (report 6 Undefined) world0)) ''bus:V1:speeds'' = []"
    "busHashes (snd (updateBusLocation decode0 east_matcher 6000 (report 6 Undefined) world0)) ''bus:V1''
       = Some \<lparr>lastLat = Some (StringOf (JNum (Fin 0))), lastLng = Some (StringOf (JNum (Fin 6))),
               lastUpdated = Some 6000, routeId = Some ''R1''\<rparr>"
    by (simp_all add: report_def)
  from h inv win step show ?thesis
    by simp
qed

text \<open>
  Claim C1 as stated fails: a report with speed \<open>-5\<close> is answered 200 and leaves
  \<open>-5\<close> in the ring, an entry that is not a finite non-negative number.
\<close>

theorem negative_speed_enters_ring:
  "code (fst (updateBusLocation decode0 east_matcher 1000 (report 5 (JNum (Fin (- 5)))) world0)) = 200
   \<and> speedLists (snd (updateBusLocation decode0 east_matcher 1000 (report 5 (JNum (Fin (- 5)))) world0))
        ''bus:V1:speeds'' = [StringOf (JNum (Fin (- 5)))]
   \<and> \<not> list_all finite_nonneg_entry
          (speedLists (snd (updateBusLocation decode0 east_matcher 1000 (report 5 (JNum (Fin (- 5)))) world0))
             ''bus:V1:speeds'')"
  by code_simp

section \<open>The broadcast of an ingest\<close>

lemma Bus_findOne_Inr:
  assumes "Bus_findOne k w = (Inr d, w1)"
  shows "d = Buses w k"
  using assms by (auto simp: Bus_findOne_def store_op_def split: if_splits)

lemma updateBusLocation_200:
  assumes "updateBusLocation decode nearest now req w = (r, w')" and "code r = 200"
  shows "updateBusLocation_try decode nearest now req w = (Inr r, w')"
proof -
  obtain r1 w1 where t: "updateBusLocation_try decode nearest now req w = (r1, w1)"
    by (cases "updateBusLocation_try decode nearest now req w")
  show ?thesis
  proof (cases r1)
    case (Inl e)
    with t assms show ?thesis by (auto simp: updateBusLocation_def)
  next
    case (Inr x)
    with t assms show ?thesis by (auto simp: updateBusLocation_def)
  qed
qed

text \<open>
  Claim C4, as the code has it. For every ingest call answered 200 there is a payload
  \<open>p\<close> such that: when the socket server has been started, exactly one event
  \<open>bus:update\<close> carrying \<open>p\<close> is added to the emitted events, to the room
  \<open>route:<routeId>\<close> (to every socket if the bus's \<open>routeId\<close> is empty), and none when
  it has not been started; the response body is \<open>{success: true, ...p}\<close>, that is the
  fields of \<open>p\<close> after a field \<open>success\<close>, while the emitted payload is \<open>p\<close> itself.
\<close>

theorem ingest_broadcast:
  assumes "updateBusLocation decode nearest now req w = (r, w')" and "code r = 200"
  shows "\<exists>doc p. Buses w (id_text (busId req)) = Some doc
           \<and> body r = Success p
           \<and> body_json (body r) = JO ((''success'', JB True) # payload_fields p)
           \<and> payload_json p = JO (payload_fields p)
           \<and> emitted w' =
               (if io w
                then emitted w @
                     [\<lparr>room = (if doc_routeId doc \<noteq> [] then Some (''route:'' @ doc_routeId doc) else None),
                       event = ''bus:update'', data = p\<rparr>]
                else emitted w)"
proof -
  note run = updateBusLocation_200 [OF assms]
  have valid: "\<not> (falsy (busId req) \<or> \<not> isFinite (Number_js (lat req)) \<or> \<not> isFinite (Number_js (lng req)))"
  proof
    assume "falsy (busId req) \<or> \<not> isFinite (Number_js (lat req)) \<or> \<not> isFinite (Number_js (lng req))"
    with run have "r = \<lparr>code = 400, body = Failure ''busId, lat, lng are required''\<rparr>"
      by (auto simp: updateBusLocation_try_def ret_def)
    with assms(2) show False by simp
  qed
  let ?k = "\<lambda>busDoc. case busDoc of
            None \<Rightarrow> ret \<lparr>code = 404, body = Failure ''Bus not found''\<rparr>
          | Some doc \<Rightarrow>
              await (hset_bus (''bus:'' @ id_text (busId req)) (StringOf (lat req)) (StringOf (lng req))
                       now (doc_routeId doc)) (\<lambda>_.
              await (if isFinite (Number_js (speed req))
                     then await (lpush (''bus:'' @ id_text (busId req) @ '':speeds'') (StringOf (speed req)))
                            (\<lambda>_. ltrim (''bus:'' @ id_text (busId req) @ '':speeds'') 0 2)
                     else ret ()) (\<lambda>_.
              await (compute_payload decode nearest now req (doc_routeId doc)) (\<lambda>p.
              await (emit (doc_routeId doc) p) (\<lambda>_.
                ret \<lparr>code = 200, body = Success p\<rparr>))))"
  have "updateBusLocation_try decode nearest now req = await (Bus_findOne (id_text (busId req))) ?k"
    by (subst updateBusLocation_try_stages, simp only: valid if_False)
  with run have "await (Bus_findOne (id_text (busId req))) ?k w = (Inr r, w')"
    by (simp only:)
  then obtain busDoc w1 where
    find: "Bus_findOne (id_text (busId req)) w = (Inr busDoc, w1)" and k: "?k busDoc w1 = (Inr r, w')"
    by (rule await_Inr)
  note s1 = quietD [OF quiet_ops(1) find]
  have doc: "busDoc = Buses w (id_text (busId req))"
    using find by (rule Bus_findOne_Inr)
  show ?thesis
  proof (cases busDoc)
    case None
    with k have "r = \<lparr>code = 404, body = Failure ''Bus not found''\<rparr>"
      by (simp add: ret_def)
    with assms(2) show ?thesis by simp
  next
    case (Some d)
    with k obtain u2 w2 where
      hset: "hset_bus (''bus:'' @ id_text (busId req)) (StringOf (lat req)) (StringOf (lng req))
               now (doc_routeId d) w1 = (Inr u2, w2)"
      and k2: "await (if isFinite (Number_js (speed req))
                     then await (lpush (''bus:'' @ id_text (busId req) @ '':speeds'') (StringOf (speed req)))
                            (\<lambda>_. ltrim (''bus:'' @ id_text (busId req) @ '':speeds'') 0 2)
                     else ret ()) (\<lambda>_.
              await (compute_payload decode nearest now req (doc_routeId d)) (\<lambda>p.
              await (emit (doc_routeId d) p) (\<lambda>_.
                ret \<lparr>code = 200, body = Success p\<rparr>))) w2 = (Inr r, w')"
      by (auto elim: await_Inr)
    note s2 = quietD [OF quiet_ops(4) hset]
    from k2 obtain u3 w3 where
      ring: "(if isFinite (Number_js (speed req))
              then await (lpush (''bus:'' @ id_text (busId req) @ '':speeds'') (StringOf (speed req)))
                     (\<lambda>_. ltrim (''bus:'' @ id_text (busId req) @ '':speeds'') 0 2)
              else ret ()) w2 = (Inr u3, w3)"
      and k3: "await (compute_payload decode nearest now req (doc_routeId d)) (\<lambda>p.
              await (emit (doc_routeId d) p) (\<lambda>_.
                ret \<lparr>code = 200, body = Success p\<rparr>)) w3 = (Inr r, w')"
      by (rule await_Inr)
    note s3 = quietD [OF quiet_ring_update ring]
    from k3 obtain p w4 where
      pay: "compute_payload decode nearest now req (doc_routeId d) w4' = (Inr p, w4)"
      and k4: "await (emit (doc_routeId d) p) (\<lambda>_. ret \<lparr>code = 200, body = Success p\<rparr>) w4 = (Inr r, w')"
      if "w4' = w3" for w4'
      by (auto elim: await_Inr)
    note s4 = quietD [OF quiet_compute_payload pay [OF refl]]
    from k4 have res: "r = \<lparr>code = 200, body = Success p\<rparr>" and w': "w' = emitBusUpdate (doc_routeId d) p w4"
      by (auto simp: await_def emit_def ret_def)
    have sock: "emitted w4 = emitted w" "io w4 = io w"
      using s1 s2 s3 s4 by simp_all
    have em: "emitted w' =
               (if io w
                then emitted w @
                     [\<lparr>room = (if doc_routeId d \<noteq> [] then Some (''route:'' @ doc_routeId d) else None),
                       event = ''bus:update'', data = p\<rparr>]
                else emitted w)"
      using w' sock by (simp add: emitBusUpdate_def Let_def)
    have b: "Buses w (id_text (busId req)) = Some d"
      using doc Some by simp
    show ?thesis
      by (intro exI [of _ d] exI [of _ p]) (simp add: b res em payload_json_def)
  qed
qed

theorem ingest_broadcast_witness:
  "code (fst (updateBusLocation decode0 east_matcher 1000 (report 5 (JNum (Fin 40))) world0)) = 200
   \<and> io world0
   \<and> (\<exists>p. body_json (body (fst (updateBusLocation decode0 east_matcher 1000 (report 5 (JNum (Fin 40))) world0)))
              = JO ((''success'', JB True) # payload_fields p)
          \<and> emitted (snd (updateBusLocation decode0 east_matcher 1000 (report 5 (JNum (Fin 40))) world0))
              = [\<lparr>room = Some ''route:R1'', event = ''bus:update'', data = p\<rparr>])"
proof -
  let ?run = "updateBusLocation decode0 east_matcher 1000 (report 5 (JNum (Fin 40))) world0"
  have run: "?run = (fst ?run, snd ?run)"
    by simp
  have ok: "code (fst ?run) = 200"
    by code_simp
  have v1: "Buses world0 (id_text (busId (report 5 (JNum (Fin 40))))) = Some \<lparr>doc_routeId = ''R1''\<rparr>"
    by (simp add: world0_def report_def)
  have sock: "io world0" "emitted world0 = []"
    by (simp_all add: world0_def)
  from ingest_broadcast [OF run ok] v1 sock ok show ?thesis
    by auto
qed

text \<open>
  Claim C4 as stated fails: the first report of \<open>V1\<close> is answered 200 and emits one
  event to \<open>route:R1\<close>, whose payload is not equal to the response body.
\<close>

theorem ingest_body_differs_from_payload:
  "code (fst (updateBusLocation decode0 east_matcher 1000 (report 5 (JNum (Fin 40))) world0)) = 200
   \<and> map room (emitted (snd (updateBusLocation decode0 east_matcher 1000 (report 5 (JNum (Fin 40))) world0)))
       = [Some ''route:R1'']
   \<and> map (payload_json \<circ> data)
          (emitted (snd (updateBusLocation decode0 east_matcher 1000 (report 5 (JNum (Fin 40))) world0)))
       \<noteq> [body_json (body (fst (updateBusLocation decode0 east_matcher 1000 (report 5 (JNum (Fin 40))) world0)))]"
  by code_simp

section \<open>The live query\<close>

text \<open>
  Claim C3. Whenever \<open>getLiveBus\<close> answers 200, the body is the composite payload, and
  its \<open>status\<close> is \<open>online\<close> if and only if \<open>now - t \<le> 90 * 1000\<close> milliseconds, where
  \<open>t\<close> is the stored \<open>lastUpdated\<close> of the bus, and \<open>offline\<close> otherwise; when no
  \<open>lastUpdated\<close> is stored the status is \<open>offline\<close>.
\<close>

theorem getLiveBus_status:
  assumes "getLiveBus decode nearest now bid w = (r, w')" and "code r = 200"
  shows "\<exists>p. body r = Composite p \<and>
           (case stored_lastUpdated w bid of
              None \<Rightarrow> status p = ''offline''
            | Some t \<Rightarrow> (status p = ''online'' \<longleftrightarrow> now - t \<le> 90 * 1000)
                       \<and> (status p = ''offline'' \<longleftrightarrow> \<not> now - t \<le> 90 * 1000))"
  using assms
  by (auto simp: getLiveBus_def getLiveBus_try_def await_def ret_def Bus_findOne_def hgetall_bus_def
      lrange_def store_op_def Let_def stored_lastUpdated_def
      split: prod.splits sum.splits option.splits if_splits)

theorem getLiveBus_status_witness:
  "stored_lastUpdated world1 ''V1'' = Some 1000
   \<and> code (fst (getLiveBus decode0 east_matcher 91000 ''V1'' world1)) = 200
   \<and> (\<exists>p. body (fst (getLiveBus decode0 east_matcher 91000 ''V1'' world1)) = Composite p
          \<and> status p = ''online'')
   \<and> code (fst (getLiveBus decode0 east_matcher 91001 ''V1'' world1)) = 200
   \<and> (\<exists>p. body (fst (getLiveBus decode0 east_matcher 91001 ''V1'' world1)) = Composite p
          \<and> status p = ''offline'')"
proof -
  let ?on = "getLiveBus decode0 east_matcher 91000 ''V1'' world1"
  let ?off = "getLiveBus decode0 east_matcher 91001 ''V1'' world1"
  have t: "stored_lastUpdated world1 ''V1'' = Some 1000"
    by code_simp
  have c1: "code (fst ?on) = 200"
    by code_simp
  have c2: "code (fst ?off) = 200"
    by code_simp
  have r1: "?on = (fst ?on, snd ?on)" and r2: "?off = (fst ?off, snd ?off)"
    by simp_all
  from getLiveBus_status [OF r1 c1] t
  have on: "\<exists>p. body (fst ?on) = Composite p \<and> status p = ''online''"
    by auto
  from getLiveBus_status [OF r2 c2] t
  have off: "\<exists>p. body (fst ?off) = Composite p \<and> status p = ''offline''"
    by auto
  from t c1 c2 on off show ?thesis
    by simp
qed

lemma getRouteGeometryAndStops_healthy:
  assumes "healthy w"
  shows "\<exists>g w'. getRouteGeometryAndStops decode rid w = (Inr g, w')"
  using assms
  by (auto simp: getRouteGeometryAndStops_def await_def ret_def hgetall_route_def Promise_all_def
      Polyline_findOne_def Route_findById_def hset_route_def store_op_healthy healthy_pop Let_def
      split: option.splits prod.splits sum.splits)

text \<open>
  Claim C8. In a world whose stores do not fail, a live query for a known bus with no
  stored hash and an empty speed ring is answered 200 with the composite payload whose
  \<open>snappedLocation\<close> is null, \<open>etaStops\<close> empty, \<open>avgSpeed\<close> 0, \<open>status\<close> \<open>offline\<close> and
  \<open>lastUpdated\<close> null.
\<close>

theorem getLiveBus_never_reported:
  assumes "healthy w"
    and "Buses w bid = Some doc"
    and "busHashes w (''bus:'' @ bid) = None"
    and "speedLists w (''bus:'' @ bid @ '':speeds'') = []"
  shows "fst (getLiveBus decode nearest now bid w) =
           \<lparr>code = 200,
            body = Composite \<lparr>pl_busId = bid, pl_routeId = doc_routeId doc, snappedLocation = None,
                              avgSpeed = Fin 0, pl_lastUpdated = None, etaStops = [],
                              status = ''offline''\<rparr>\<rparr>"
proof -
  let ?w3 = "pop (pop (pop w))"
  have "healthy ?w3"
    using assms(1) by (simp add: healthy_pop)
  then obtain g w4 where g: "getRouteGeometryAndStops decode (doc_routeId doc) ?w3 = (Inr g, w4)"
    using getRouteGeometryAndStops_healthy by blast
  show ?thesis
    using assms g
    by (simp add: getLiveBus_def getLiveBus_try_def await_def ret_def Bus_findOne_def hgetall_bus_def
        lrange_def store_op_healthy healthy_pop Let_def computeAverageSpeed_def
        split: prod.splits)
qed

theorem getLiveBus_never_reported_witness:
  "healthy world0
   \<and> Buses world0 ''V1'' = Some \<lparr>doc_routeId = ''R1''\<rparr>
   \<and> busHashes world0 ''bus:V1'' = None
   \<and> speedLists world0 ''bus:V1:speeds'' = []
   \<and> fst (getLiveBus decode0 east_matcher 5000 ''V1'' world0) =
       \<lparr>code = 200,
        body = Composite \<lparr>pl_busId = ''V1'', pl_routeId = ''R1'', snappedLocation = None,
                          avgSpeed = Fin 0, pl_lastUpdated = None, etaStops = [],
                          status = ''offline''\<rparr>\<rparr>"
proof -
  have h: "healthy world0"
    by (simp add: healthy_def world0_def)
  have b: "Buses world0 ''V1'' = Some \<lparr>doc_routeId = ''R1''\<rparr>"
    by (simp add: world0_def)
  have n: "busHashes world0 (''bus:'' @ ''V1'') = None"
    by (simp add: world0_def)
  have s: "speedLists world0 (''bus:'' @ ''V1'' @ '':speeds'') = []"
    by (simp add: world0_def)
  from getLiveBus_never_reported [OF h b n s, of decode0 east_matcher 5000] h b n s show ?thesis
    by simp
qed

section \<open>The geometry cache\<close>

lemma cached_geometry_corrupt:
  assumes "cached_polyline h = None \<or> cached_stops h = None
           \<or> cached_polyline h = Some Malformed \<or> cached_stops h = Some Malformed"
  shows "cached_geometry (Some h) = None"
  using assms by (auto simp: cached_geometry_def split: option.splits)

lemma getRouteGeometryAndStops_miss:
  assumes "cached_geometry (routeHashes w (''route:'' @ rid)) = None"
    and "Polylines w rid = Some pd" and "Routes w rid = Some rd"
    and "\<not> failing w" and "\<not> failing (pop w)" and "\<not> failing (pop (pop w))"
  shows "getRouteGeometryAndStops decode rid w =
           (if failing (pop (pop (pop w))) then (Inl StoreError, pop (pop (pop (pop w))))
            else (Inr (Some (map (\<lambda>(lat, lng). (lng, lat)) (decode (geometry pd))),
                       Some (case doc_stops rd of None \<Rightarrow> [] | Some l \<Rightarrow> l)),
                  (pop (pop (pop (pop w))))\<lparr>routeHashes := (routeHashes w)(''route:'' @ rid \<mapsto>
                     \<lparr>cached_polyline = Some (Json (map (\<lambda>(lat, lng). (lng, lat)) (decode (geometry pd)))),
                      cached_stops = Some (Json (case doc_stops rd of None \<Rightarrow> [] | Some l \<Rightarrow> l))\<rparr>)\<rparr>))"
  using assms
  by (simp add: getRouteGeometryAndStops_def await_def ret_def hgetall_route_def Promise_all_def
      Polyline_findOne_def Route_findById_def hset_route_def store_op_def Let_def)

text \<open>
  Claim C10. In a world whose stores do not fail and whose durable store holds the
  Polyline and the Route: if the hash \<open>route:<routeId>\<close> exists but its \<open>polyline\<close> or
  \<open>stops\<close> field is missing or does not parse, \<open>getRouteGeometryAndStops\<close> does not
  fail; it returns the geometry decoded from the durable Polyline (in \<open>[lng, lat]\<close>
  order) with the Route's stops, and rewrites the cache entry with them.
\<close>

theorem corrupt_cache_entry_falls_back:
  assumes "healthy w"
    and "routeHashes w (''route:'' @ rid) = Some h"
    and "cached_polyline h = None \<or> cached_stops h = None
         \<or> cached_polyline h = Some Malformed \<or> cached_stops h = Some Malformed"
    and "Polylines w rid = Some pd" and "Routes w rid = Some rd"
    and "getRouteGeometryAndStops decode rid w = (res, w')"
  shows "res = Inr (Some (map (\<lambda>(lat, lng). (lng, lat)) (decode (geometry pd))),
                    Some (case doc_stops rd of None \<Rightarrow> [] | Some l \<Rightarrow> l))
       \<and> routeHashes w' = (routeHashes w)(''route:'' @ rid \<mapsto>
             \<lparr>cached_polyline = Some (Json (map (\<lambda>(lat, lng). (lng, lat)) (decode (geometry pd)))),
              cached_stops = Some (Json (case doc_stops rd of None \<Rightarrow> [] | Some l \<Rightarrow> l))\<rparr>)"
proof -
  have miss: "cached_geometry (routeHashes w (''route:'' @ rid)) = None"
    using assms(2,3) by (simp add: cached_geometry_corrupt)
  have up: "\<not> failing w" "\<not> failing (pop w)" "\<not> failing (pop (pop w))" "\<not> failing (pop (pop (pop w)))"
    using assms(1) by (simp_all add: healthy_pop healthy_not_failing)
  show ?thesis
    using getRouteGeometryAndStops_miss [OF miss assms(4,5) up(1,2,3), of decode] up(4) assms(6)
    by auto
qed

theorem corrupt_cache_entry_falls_back_witness:
  "routeHashes corrupt_world ''route:R1'' = Some \<lparr>cached_polyline = Some Malformed, cached_stops = Some (Json [])\<rparr>
   \<and> fst (getRouteGeometryAndStops decode0 ''R1'' corrupt_world) = Inr (Some line0, Some [stop1, stop2])
   \<and> routeHashes (snd (getRouteGeometryAndStops decode0 ''R1'' corrupt_world)) ''route:R1'' =
        Some \<lparr>cached_polyline = Some (Json line0), cached_stops = Some (Json [stop1, stop2])\<rparr>"
proof -
  let ?run = "getRouteGeometryAndStops decode0 ''R1'' corrupt_world"
  have run: "?run = (fst ?run, snd ?run)"
    by simp
  have h: "healthy corrupt_world"
    by (simp add: healthy_def corrupt_world_def world0_def)
  have c: "routeHashes corrupt_world (''route:'' @ ''R1'') =
             Some \<lparr>cached_polyline = Some Malformed, cached_stops = Some (Json [])\<rparr>"
    by (simp add: corrupt_world_def)
  have p: "Polylines corrupt_world ''R1'' = Some \<lparr>geometry = ''east''\<rparr>"
    by (simp add: corrupt_world_def world0_def)
  have r: "Routes corrupt_world ''R1'' = Some \<lparr>doc_stops = Some [stop1, stop2]\<rparr>"
    by (simp add: corrupt_world_def world0_def)
  from corrupt_cache_entry_falls_back [OF h c _ p r run] c show ?thesis
    by (simp add: decode0_def line0_def)
qed

text \<open>
  Claim C5 at a failing input: a cache miss for \<open>R1\<close> with the durable Polyline and
  Route present, where the three reads succeed and the cache write is rejected. The
  call fails with the store's error instead of returning the computed geometry, and
  an ingest whose cache write fails is answered 500.
\<close>

theorem getRouteGeometryAndStops_write_failure:
  "cached_geometry (routeHashes write_failure_world ''route:R1'') = None
   \<and> Polylines write_failure_world ''R1'' = Some \<lparr>geometry = ''east''\<rparr>
   \<and> Routes write_failure_world ''R1'' = Some \<lparr>doc_stops = Some [stop1, stop2]\<rparr>
   \<and> fst (getRouteGeometryAndStops decode0 ''R1'' write_failure_world) = Inl StoreError
   \<and> fst (getRouteGeometryAndStops decode0 ''R1'' write_failure_world) \<noteq> Inr (Some line0, Some [stop1, stop2])
   \<and> code (fst (updateBusLocation decode0 east_matcher 1000 (report 5 (JNum (Fin 40)))
                   ingest_write_failure_world)) = 500"
proof (intro conjI)
  show "code (fst (updateBusLocation decode0 east_matcher 1000 (report 5 (JNum (Fin 40)))
                   ingest_write_failure_world)) = 500"
    by code_simp
qed (simp_all add: getRouteGeometryAndStops_def await_def ret_def hgetall_route_def Promise_all_def
      Polyline_findOne_def Route_findById_def hset_route_def store_op_def Let_def
      failing_def pop_def cached_geometry_def write_failure_world_def world0_def)

end
